theory Spec2Isabelle
  imports Main "HOL-Library.AList"
begin

section \<open>Python strings\<close>

text \<open>
  A Python \<open>str\<close> is modelled as an Isabelle \<open>string\<close>: a list of characters with code
  points below 256.  The character classes below are the ones Python uses on that range:
  \<open>str.isspace\<close> (also the class \<open>\s\<close> of \<open>re\<close>, and what \<open>strip()\<close> and \<open>split()\<close>
  remove) holds for the code points 9 to 13, 28 to 32, 133 and 160; the class \<open>\d\<close> holds
  for the ten ASCII digits; \<open>str.lower\<close> maps \<open>A-Z\<close> and the upper-case letters
  192 to 222 (215, the multiplication sign, apart) to the letter 32 places further.
\<close>

definition isspace :: "char \<Rightarrow> bool" where
  "isspace c \<longleftrightarrow> c \<in> set [CHR 0x09, CHR 0x0A, CHR 0x0B, CHR 0x0C, CHR 0x0D,
      CHR 0x1C, CHR 0x1D, CHR 0x1E, CHR 0x1F, CHR 0x20, CHR 0x85, CHR 0xA0]"

definition isdigit :: "char \<Rightarrow> bool" where
  "isdigit c \<longleftrightarrow> c \<in> set ''0123456789''"

definition lower_char :: "char \<Rightarrow> char" where
  "lower_char c =
     (let n = (of_char c :: nat)
      in if (65 \<le> n \<and> n \<le> 90) \<or> (192 \<le> n \<and> n \<le> 222 \<and> n \<noteq> 215)
         then char_of (n + 32) else c)"

definition lower :: "string \<Rightarrow> string" where
  "lower s = map lower_char s"

text \<open>\<open>s.strip()\<close>: white space removed at both ends.\<close>

definition strip :: "string \<Rightarrow> string" where
  "strip s = rev (dropWhile isspace (rev (dropWhile isspace s)))"

text \<open>\<open>s.startswith(p)\<close> and \<open>s.endswith(p)\<close>.\<close>

fun startswith :: "string \<Rightarrow> string \<Rightarrow> bool" where
  "startswith s [] = True"
| "startswith [] (p # ps) = False"
| "startswith (c # cs) (p # ps) = (c = p \<and> startswith cs ps)"

definition endswith :: "string \<Rightarrow> string \<Rightarrow> bool" where
  "endswith s p = startswith (rev s) (rev p)"

text \<open>\<open>sub in s\<close>: \<open>sub\<close> occurs in \<open>s\<close> as a contiguous substring.\<close>

fun contains :: "string \<Rightarrow> string \<Rightarrow> bool" where
  "contains sub [] = (sub = [])"
| "contains sub (c # cs) = (startswith (c # cs) sub \<or> contains sub cs)"

text \<open>
  \<open>s.split(sep)\<close> for a non-empty separator: the pieces between the occurrences of \<open>sep\<close>,
  found from the left and not overlapping.  The result always has at least one piece.
  (Python raises \<open>ValueError\<close> for an empty separator; the one caller passes the keywords
  of a fixed list, none of them empty.)
\<close>

fun split_from :: "string \<Rightarrow> string \<Rightarrow> string \<Rightarrow> string list" where
  "split_from sep cur [] = [rev cur]"
| "split_from sep cur (c # cs) =
     (if sep \<noteq> [] \<and> startswith (c # cs) sep
      then rev cur # split_from sep [] (drop (length sep - 1) cs)
      else split_from sep (c # cur) cs)"

definition split_sep :: "string \<Rightarrow> string \<Rightarrow> string list" where
  "split_sep s sep = split_from sep [] s"

text \<open>\<open>s.split()\<close>: the maximal runs of characters that are not white space.\<close>

fun split_ws_from :: "string \<Rightarrow> string \<Rightarrow> string list" where
  "split_ws_from cur [] = (if cur = [] then [] else [rev cur])"
| "split_ws_from cur (c # cs) =
     (if isspace c
      then (if cur = [] then split_ws_from [] cs else rev cur # split_ws_from [] cs)
      else split_ws_from (c # cur) cs)"

definition split_ws :: "string \<Rightarrow> string list" where
  "split_ws s = split_ws_from [] s"

section \<open>Region extraction\<close>

text \<open>
  Lines 50 to 63 of \<open>get_nutrition_recommendation\<close>: the loop over the keywords.  The
  \<open>break\<close> sits under the test that the text after the keyword has a word, so a keyword
  that occurs with no word after it lets the loop go on to the next keyword.
\<close>

definition region_keywords :: "string list" where
  "region_keywords = [''region'', ''state'', ''city'', ''district'', ''area'', ''from'', ''lives in'']"

fun region_loop :: "string list \<Rightarrow> string \<Rightarrow> string \<Rightarrow> string" where
  "region_loop [] query region = region"
| "region_loop (keyword # rest) query region =
     (if contains keyword (lower query) then
        (let parts = split_sep (lower query) keyword in
         if length parts > 1 then
           (let region_part = strip (parts ! 1);
                region_words = split_ws region_part
            in if length region_words > 0 then
                 (if length region_words > 1
                  then region_words ! 0 @ '' '' @ region_words ! 1
                  else region_words ! 0)
               else region_loop rest query region)
         else region_loop rest query region)
      else region_loop rest query region)"

definition extract_region :: "string \<Rightarrow> string" where
  "extract_region query = region_loop region_keywords query ''unknown''"

text \<open>
  To say what the loop computes: the text after the first occurrence of a separator, the
  text before its first occurrence (all of the text when it does not occur), and the words
  of the segment that follows a keyword, from the end of its first occurrence to the start
  of its next occurrence or the end of the text.
\<close>

fun text_after :: "string \<Rightarrow> string \<Rightarrow> string" where
  "text_after sep [] = []"
| "text_after sep (c # cs) =
     (if startswith (c # cs) sep then drop (length sep) (c # cs) else text_after sep cs)"

fun text_before :: "string \<Rightarrow> string \<Rightarrow> string" where
  "text_before sep [] = []"
| "text_before sep (c # cs) =
     (if startswith (c # cs) sep then [] else c # text_before sep cs)"

definition words_after :: "string \<Rightarrow> string \<Rightarrow> string list" where
  "words_after keyword s =
     (if contains keyword s then split_ws (strip (text_before keyword (text_after keyword s)))
      else [])"

text \<open>
  The extraction as the specification words it, for comparison: the first keyword of the
  list that occurs in the case-folded query decides; the region is the next one or two
  words of the remainder of the query after that keyword, \<open>unknown\<close> when no keyword
  occurs or the remainder has no word.
\<close>

fun first_keyword :: "string list \<Rightarrow> string \<Rightarrow> string option" where
  "first_keyword [] s = None"
| "first_keyword (keyword # rest) s =
     (if contains keyword s then Some keyword else first_keyword rest s)"

definition spec_region :: "string \<Rightarrow> string" where
  "spec_region query =
     (case first_keyword region_keywords (lower query) of
        None \<Rightarrow> ''unknown''
      | Some keyword \<Rightarrow>
          (case split_ws (text_after keyword (lower query)) of
             [] \<Rightarrow> ''unknown''
           | [w] \<Rightarrow> w
           | w # w2 # _ \<Rightarrow> w @ '' '' @ w2))"

section \<open>Regular expressions\<close>

text \<open>
  The patterns of the program use a small part of Python's \<open>re\<close>: literal text, repetition
  of one character class (greedy \<open>*\<close> and \<open>+\<close>, lazy \<open>*?\<close>), capture groups, alternation,
  a look-ahead and \<open>$\<close>.  They are kept as syntax trees, and \<open>rmatch\<close> is the backtracking
  matcher of \<open>re\<close> on them, in continuation-passing style: the continuation \<open>k\<close> stands for
  the rest of the pattern, and a \<open>None\<close> from it makes the matcher try its next choice.
  Every call to \<open>re\<close> that uses \<open>.\<close> passes \<open>re.DOTALL\<close>, so \<open>CAny\<close> is every character.
\<close>

datatype cset = CAny | CDigit | CSpace | CChar char | CUnion cset cset | CNot cset

datatype regex =
    Lit string
  | Rep cset nat bool
  | Grp nat regex
  | Alt regex regex
  | Seq regex regex
  | Ahead regex
  | Dollar

type_synonym captures = "(nat \<times> string) list"

text \<open>The flag \<open>ic\<close> is \<open>re.IGNORECASE\<close>: letters are compared after lower-casing.\<close>

fun cmatch :: "bool \<Rightarrow> cset \<Rightarrow> char \<Rightarrow> bool" where
  "cmatch ic CAny c = True"
| "cmatch ic CDigit c = isdigit c"
| "cmatch ic CSpace c = isspace c"
| "cmatch ic (CChar d) c = (if ic then lower_char c = lower_char d else c = d)"
| "cmatch ic (CUnion a b) c = (cmatch ic a c \<or> cmatch ic b c)"
| "cmatch ic (CNot a) c = (\<not> cmatch ic a c)"

fun lit_prefix :: "bool \<Rightarrow> string \<Rightarrow> string \<Rightarrow> bool" where
  "lit_prefix ic [] s = True"
| "lit_prefix ic (l # ls) [] = False"
| "lit_prefix ic (l # ls) (c # cs) = (cmatch ic (CChar l) c \<and> lit_prefix ic ls cs)"

text \<open>
  \<open>rep_greedy p n s k\<close>: at least \<open>n\<close> characters of the class \<open>p\<close>, as many as possible
  first, giving one back at a time while the continuation fails.  \<open>rep_lazy\<close>: as few as
  possible first, taking one more at a time.
\<close>

fun rep_greedy :: "(char \<Rightarrow> bool) \<Rightarrow> nat \<Rightarrow> string \<Rightarrow> (string \<Rightarrow> 'a option) \<Rightarrow> 'a option" where
  "rep_greedy p n [] k = (if n = 0 then k [] else None)"
| "rep_greedy p n (c # cs) k =
     (if p c then
        (case rep_greedy p (n - 1) cs k of
           Some r \<Rightarrow> Some r
         | None \<Rightarrow> (if n = 0 then k (c # cs) else None))
      else (if n = 0 then k (c # cs) else None))"

fun rep_lazy :: "(char \<Rightarrow> bool) \<Rightarrow> nat \<Rightarrow> string \<Rightarrow> (string \<Rightarrow> 'a option) \<Rightarrow> 'a option" where
  "rep_lazy p n [] k = (if n = 0 then k [] else None)"
| "rep_lazy p n (c # cs) k =
     (if n = 0 then
        (case k (c # cs) of
           Some r \<Rightarrow> Some r
         | None \<Rightarrow> (if p c then rep_lazy p 0 cs k else None))
      else (if p c then rep_lazy p (n - 1) cs k else None))"

text \<open>
  The matcher works on the text that is left; a group records the text consumed between
  its start and its end.  \<open>$\<close> (without \<open>re.MULTILINE\<close>) holds at the end of the text and
  before a newline that ends the text.
\<close>

fun rmatch :: "bool \<Rightarrow> regex \<Rightarrow> string \<Rightarrow> captures
    \<Rightarrow> (string \<Rightarrow> captures \<Rightarrow> (string \<times> captures) option) \<Rightarrow> (string \<times> captures) option" where
  "rmatch ic (Lit l) s cs k = (if lit_prefix ic l s then k (drop (length l) s) cs else None)"
| "rmatch ic (Rep c n g) s cs k =
     (if g then rep_greedy (cmatch ic c) n s (\<lambda>s'. k s' cs)
      else rep_lazy (cmatch ic c) n s (\<lambda>s'. k s' cs))"
| "rmatch ic (Grp i r) s cs k =
     rmatch ic r s cs (\<lambda>s' cs'. k s' ((i, take (length s - length s') s) # cs'))"
| "rmatch ic (Alt a b) s cs k =
     (case rmatch ic a s cs k of Some r \<Rightarrow> Some r | None \<Rightarrow> rmatch ic b s cs k)"
| "rmatch ic (Seq a b) s cs k = rmatch ic a s cs (\<lambda>s' cs'. rmatch ic b s' cs' k)"
| "rmatch ic (Ahead r) s cs k =
     (case rmatch ic r s cs (\<lambda>s' cs'. Some (s', cs')) of None \<Rightarrow> None | Some _ \<Rightarrow> k s cs)"
| "rmatch ic Dollar s cs k = (if s = [] \<or> s = [CHR 0x0A] then k s cs else None)"

text \<open>A pattern \<open>abc\<close> is \<open>seqs [a, b, c]\<close>, a pattern \<open>a|b|c\<close> is \<open>alts [a, b, c]\<close>.\<close>

fun seqs :: "regex list \<Rightarrow> regex" where
  "seqs [] = Lit []"
| "seqs [r] = r"
| "seqs (r # rs) = Seq r (seqs rs)"

fun alts :: "regex list \<Rightarrow> regex" where
  "alts [] = Lit []"
| "alts [r] = r"
| "alts (r # rs) = Alt r (alts rs)"

text \<open>\<open>binds i r\<close>: every match of \<open>r\<close> passes through group \<open>i\<close>.\<close>

fun binds :: "nat \<Rightarrow> regex \<Rightarrow> bool" where
  "binds i (Grp j r) = (i = j \<or> binds i r)"
| "binds i (Seq a b) = (binds i a \<or> binds i b)"
| "binds i (Alt a b) = (binds i a \<and> binds i b)"
| "binds i _ = False"

text \<open>
  A match object: the text from the start of the match, the text after its end, and the
  groups.  \<open>re.search\<close> tries every start position from the left, the end of the text
  included, and returns the first match.
\<close>

record rematch =
  m_start :: string
  m_end :: string
  m_caps :: captures

fun re_search :: "bool \<Rightarrow> regex \<Rightarrow> string \<Rightarrow> rematch option" where
  "re_search ic r [] =
     (case rmatch ic r [] [] (\<lambda>s' cs'. Some (s', cs')) of
        Some (e, cs) \<Rightarrow> Some \<lparr>m_start = [], m_end = e, m_caps = cs\<rparr>
      | None \<Rightarrow> None)"
| "re_search ic r (c # s) =
     (case rmatch ic r (c # s) [] (\<lambda>s' cs'. Some (s', cs')) of
        Some (e, cs) \<Rightarrow> Some \<lparr>m_start = c # s, m_end = e, m_caps = cs\<rparr>
      | None \<Rightarrow> re_search ic r s)"

text \<open>\<open>m.group(i)\<close>: \<open>None\<close> for a group that took no part in the match.\<close>

definition group :: "rematch \<Rightarrow> nat \<Rightarrow> string option" where
  "group m i = map_of (m_caps m) i"

text \<open>
  \<open>re.findall\<close> with a pattern of two groups: the pairs of groups of the matches found
  from the left, each search starting where the match before it ended; a group that took no
  part gives the empty string.  (After an empty match Python moves on by one character;
  no pattern of the program matches the empty text.)
\<close>

function re_finditer :: "bool \<Rightarrow> regex \<Rightarrow> string \<Rightarrow> rematch list" where
  "re_finditer ic r s =
     (case re_search ic r s of
        None \<Rightarrow> []
      | Some m \<Rightarrow>
          m # (if length (m_end m) < length s then re_finditer ic r (m_end m)
               else (case s of [] \<Rightarrow> [] | c # t \<Rightarrow> re_finditer ic r t)))"
  by pat_completeness auto
termination
  by (relation "measure (\<lambda>(ic, r, s). length s)") auto

declare re_finditer.simps [simp del]

definition group_or_empty :: "rematch \<Rightarrow> nat \<Rightarrow> string" where
  "group_or_empty m i = (case group m i of None \<Rightarrow> [] | Some g \<Rightarrow> g)"

definition re_findall2 :: "bool \<Rightarrow> regex \<Rightarrow> string \<Rightarrow> (string \<times> string) list" where
  "re_findall2 ic r s = map (\<lambda>m. (group_or_empty m 1, group_or_empty m 2)) (re_finditer ic r s)"

section \<open>Exceptions and dictionaries\<close>

text \<open>
  A call that may raise returns \<open>exn + 'a\<close>, with \<open>Inl\<close> the exception.  \<open>Failure\<close> is an
  exception raised by an external collaborator (vector store, language model, PDF loader,
  file system), named by the collaborator.  \<open>Unsupported\<close> is no exception of the program:
  it marks a text whose decoding needs a character above code point 255, about which the
  model says nothing.  A Python \<open>dict\<close> is an association list in
  insertion order with distinct keys: \<open>d[k] = v\<close> is \<open>AList.update k v d\<close>, which replaces
  the value of a key in place and appends a new key at the end; \<open>map_of d k\<close> looks a key up.
\<close>

datatype exn =
    JSONDecodeError
  | TypeError
  | AttributeError
  | KeyError
  | ValueError
  | IndexError
  | Failure string
  | Unsupported

type_synonym 'v dict = "(string \<times> 'v) list"

section \<open>The scheme-record parser\<close>

text \<open>
  \<open>parse_health_scheme\<close> of \<open>api/search.py\<close>.  Each of the seven patterns has the shape
  \<open>Label:\s*([^\n]+)\<close> and is searched in the whole text with \<open>re.IGNORECASE\<close>.
\<close>

definition label_pattern :: "string \<Rightarrow> regex" where
  "label_pattern l =
     seqs [Lit l, Rep CSpace 0 True, Grp 1 (Rep (CNot (CChar (CHR 0x0A))) 1 True)]"

definition patterns :: "(string \<times> regex) list" where
  "patterns =
     [(''state'', label_pattern ''State:''),
      (''description'', label_pattern ''Description:''),
      (''eligibility'', label_pattern ''Eligibility:''),
      (''how_to_apply'', label_pattern ''How to Apply:''),
      (''benefits'', label_pattern ''Benefits:''),
      (''documents_required'', label_pattern ''Documents Required:''),
      (''contact_info'', label_pattern ''Contact:'')]"

definition initial_structured_data :: "string dict" where
  "initial_structured_data =
     [(''scheme_name'', ''''), (''state'', ''''), (''description'', ''''),
      (''eligibility'', ''''), (''how_to_apply'', ''''), (''benefits'', ''''),
      (''documents_required'', ''''), (''contact_info'', '''')]"

text \<open>
  The loop over \<open>patterns.items()\<close>.  \<open>match.group(1).strip()\<close> raises \<open>AttributeError\<close>
  when the group is \<open>None\<close>.
\<close>

fun apply_patterns :: "(string \<times> regex) list \<Rightarrow> string \<Rightarrow> string dict \<Rightarrow> exn + string dict" where
  "apply_patterns [] content structured_data = Inr structured_data"
| "apply_patterns ((key, pattern) # rest) content structured_data =
     (case re_search True pattern content of
        None \<Rightarrow> apply_patterns rest content structured_data
      | Some m \<Rightarrow>
          (case group m 1 of
             None \<Rightarrow> Inl AttributeError
           | Some g \<Rightarrow> apply_patterns rest content (AList.update key (strip g) structured_data)))"

text \<open>The dictionary after the first line and the seven patterns have been read.\<close>

definition extract_fields :: "string \<Rightarrow> exn + string dict" where
  "extract_fields content =
     (let lines = split_sep (strip content) [CHR 0x0A];
          structured_data =
            (if lines \<noteq> []
             then AList.update ''scheme_name'' (strip (lines ! 0)) initial_structured_data
             else initial_structured_data)
      in apply_patterns patterns content structured_data)"

text \<open>The test of line 93, the fallback key, and the filter of line 96.\<close>

definition all_fields_empty :: "string dict \<Rightarrow> bool" where
  "all_fields_empty structured_data =
     list_all (\<lambda>(key, value). value = '''')
       (filter (\<lambda>(key, value). key \<noteq> ''scheme_name'' \<and> key \<noteq> ''result_id'') structured_data)"

definition finish_scheme :: "string \<Rightarrow> string dict \<Rightarrow> string dict" where
  "finish_scheme content structured_data =
     (let structured_data' =
            (if all_fields_empty structured_data
             then AList.update ''raw_content'' content structured_data
             else structured_data)
      in filter (\<lambda>(k, v). v \<noteq> '''') structured_data')"

definition parse_health_scheme :: "string \<Rightarrow> exn + string dict" where
  "parse_health_scheme content =
     (case extract_fields content of
        Inl e \<Rightarrow> Inl e
      | Inr structured_data \<Rightarrow> Inr (finish_scheme content structured_data))"

text \<open>The seven labelled fields.\<close>

definition labeled_keys :: "string list" where
  "labeled_keys = map fst patterns"

section \<open>The diet-plan parser\<close>

text \<open>
  The value that \<open>json.loads\<close> returns: \<open>None\<close>, a \<open>bool\<close>, an \<open>int\<close>, a \<open>float\<close> (kept as
  its literal), a \<open>str\<close>, a \<open>list\<close> or a \<open>dict\<close>.
\<close>

datatype json =
    JNull
  | JBool bool
  | JInt int
  | JFloat string
  | JStr string
  | JArr "json list"
  | JObj "(string \<times> json) list"

text \<open>
  The three operations that lines 138 to 153 apply to the decoded value.
  \<open>key in obj\<close>: key membership in a \<open>dict\<close>, element membership in a \<open>list\<close>, substring
  in a \<open>str\<close>, \<open>TypeError\<close> otherwise.  \<open>obj[key]\<close> with a string key: \<open>KeyError\<close> in a
  \<open>dict\<close> without the key, \<open>TypeError\<close> for every other value.  \<open>obj.get(key, dflt)\<close>:
  only a \<open>dict\<close> has the method.
\<close>

fun py_in :: "string \<Rightarrow> json \<Rightarrow> exn + bool" where
  "py_in key (JObj kvs) = Inr (map_of kvs key \<noteq> None)"
| "py_in key (JArr xs) = Inr (JStr key \<in> set xs)"
| "py_in key (JStr s) = Inr (contains key s)"
| "py_in key _ = Inl TypeError"

fun py_getitem :: "json \<Rightarrow> string \<Rightarrow> exn + json" where
  "py_getitem (JObj kvs) key = (case map_of kvs key of None \<Rightarrow> Inl KeyError | Some v \<Rightarrow> Inr v)"
| "py_getitem _ key = Inl TypeError"

fun py_get :: "json \<Rightarrow> string \<Rightarrow> json \<Rightarrow> exn + json" where
  "py_get (JObj kvs) key dflt = Inr (case map_of kvs key of None \<Rightarrow> dflt | Some v \<Rightarrow> v)"
| "py_get _ key dflt = Inl AttributeError"

definition not_specified :: json where
  "not_specified = JStr ''Not specified''"

definition meal_keys :: "string list" where
  "meal_keys = [''breakfast'', ''morning_snack'', ''lunch'', ''evening_snack'', ''dinner'']"

definition default_day :: "json dict" where
  "default_day =
     [(''breakfast'', not_specified), (''morning_snack'', not_specified),
      (''lunch'', not_specified), (''evening_snack'', not_specified),
      (''dinner'', not_specified)]"

text \<open>\<open>str(n)\<close> for a natural number, as the f-string \<open>f"day{day_num}"\<close> uses it.\<close>

fun str_nat :: "nat \<Rightarrow> string" where
  "str_nat n =
     (if n < 10 then [''0123456789'' ! n]
      else str_nat (n div 10) @ [''0123456789'' ! (n mod 10)])"

declare str_nat.simps [simp del]

definition day_keys :: "string list" where
  "day_keys = map (\<lambda>day_num. ''day'' @ str_nat day_num) [1..<8]"

subsection \<open>Stage 0: the text handed to the decoder\<close>

definition fence :: string where
  "fence = [CHR 0x60, CHR 0x60, CHR 0x60]"

definition json_pattern :: regex where
  "json_pattern =
     alts [seqs [Lit (fence @ ''json''), Rep CSpace 0 True, Grp 1 (Rep CAny 0 False),
                 Rep CSpace 0 True, Lit fence],
           seqs [Lit fence, Rep CSpace 0 True, Grp 2 (Rep CAny 0 False),
                 Rep CSpace 0 True, Lit fence],
           Grp 3 (seqs [Lit ''{'', Rep CAny 0 True, Lit ''}''])]"

text \<open>\<open>s.find(sub)\<close> and \<open>s.rfind(sub)\<close>; \<open>None\<close> is Python's \<open>-1\<close>.\<close>

fun find_from :: "nat \<Rightarrow> string \<Rightarrow> string \<Rightarrow> nat option" where
  "find_from i sub [] = (if sub = [] then Some i else None)"
| "find_from i sub (c # cs) =
     (if startswith (c # cs) sub then Some i else find_from (Suc i) sub cs)"

definition find :: "string \<Rightarrow> string \<Rightarrow> nat option" where
  "find s sub = find_from 0 sub s"

fun rfind_from :: "nat \<Rightarrow> nat option \<Rightarrow> string \<Rightarrow> string \<Rightarrow> nat option" where
  "rfind_from i best sub [] = (if sub = [] then Some i else best)"
| "rfind_from i best sub (c # cs) =
     rfind_from (Suc i) (if startswith (c # cs) sub then Some i else best) sub cs"

definition rfind :: "string \<Rightarrow> string \<Rightarrow> nat option" where
  "rfind s sub = rfind_from 0 None sub s"

text \<open>The loop over \<open>json_match.groups()\<close>: the first group that is neither \<open>None\<close> nor empty.\<close>

fun first_group :: "string option list \<Rightarrow> string \<Rightarrow> string" where
  "first_group [] diet_plan_text = diet_plan_text"
| "first_group (None # gs) diet_plan_text = first_group gs diet_plan_text"
| "first_group (Some g # gs) diet_plan_text =
     (if g \<noteq> [] then g else first_group gs diet_plan_text)"

text \<open>Lines 109 to 127.\<close>

definition extract_json_text :: "string \<Rightarrow> string" where
  "extract_json_text diet_plan_text =
     (let t1 = (case re_search False json_pattern diet_plan_text of
                  None \<Rightarrow> diet_plan_text
                | Some json_match \<Rightarrow>
                    first_group [group json_match 1, group json_match 2, group json_match 3]
                      diet_plan_text);
          t2 = strip t1;
          t3 = (if \<not> startswith t2 ''{''
                then (case find t2 ''{'' of None \<Rightarrow> t2 | Some start_idx \<Rightarrow> drop start_idx t2)
                else t2);
          t4 = (if \<not> endswith t3 ''}''
                then (case rfind t3 ''}'' of None \<Rightarrow> t3 | Some end_idx \<Rightarrow> take (end_idx + 1) t3)
                else t3)
      in t4)"

subsection \<open>The decoder of the standard library\<close>

text \<open>
  \<open>json.loads\<close> is Python's own code, not the program's; it is modelled here so that the
  parser can be run on concrete texts.  The grammar is the one of \<open>json.decoder\<close> and
  \<open>json.scanner\<close>: white space is space, tab, newline and carriage return; a string ends at
  the first unescaped quote and may hold no control character (\<open>strict\<close>); a number is
  \<open>-?(0|[1-9][0-9]*)(\.[0-9]+)?([eE][-+]?[0-9]+)?\<close>; \<open>NaN\<close>, \<open>Infinity\<close> and \<open>-Infinity\<close>
  are accepted; text after the value is an error; of two equal keys the later value wins.
  Every error of the decoder is a \<open>JSONDecodeError\<close>.
\<close>

definition json_ws :: "char \<Rightarrow> bool" where
  "json_ws c \<longleftrightarrow> c \<in> set [CHR 0x20, CHR 0x09, CHR 0x0A, CHR 0x0D]"

definition skip_ws :: "string \<Rightarrow> string" where
  "skip_ws s = dropWhile json_ws s"

fun index_of :: "char \<Rightarrow> string \<Rightarrow> nat option" where
  "index_of c [] = None"
| "index_of c (d # ds) = (if c = d then Some 0 else map_option Suc (index_of c ds))"

definition hexval :: "char \<Rightarrow> nat option" where
  "hexval c = (case index_of c ''0123456789abcdef'' of
                 Some n \<Rightarrow> Some n
               | None \<Rightarrow> map_option (\<lambda>n. n + 10) (index_of c ''ABCDEF''))"

definition backslash :: "char \<Rightarrow> char option" where
  "backslash esc =
     map_of [(CHR 0x22, CHR 0x22), (CHR 0x5C, CHR 0x5C), (CHR ''/'', CHR ''/''),
             (CHR ''b'', CHR 0x08), (CHR ''f'', CHR 0x0C), (CHR ''n'', CHR 0x0A),
             (CHR ''r'', CHR 0x0D), (CHR ''t'', CHR 0x09)] esc"

text \<open>\<open>scanstring\<close>, called on the text after the opening quote: the string and the rest.\<close>

fun scanstring :: "string \<Rightarrow> exn + (string \<times> string)" where
  "scanstring [] = Inl JSONDecodeError"
| "scanstring (c # s) =
     (if c = CHR 0x22 then Inr ([], s)
      else if c = CHR 0x5C then
        (case s of
           [] \<Rightarrow> Inl JSONDecodeError
         | esc # s' \<Rightarrow>
             if esc = CHR ''u'' then
               (case s' of
                  h1 # h2 # h3 # h4 # s'' \<Rightarrow>
                    (case (hexval h1, hexval h2, hexval h3, hexval h4) of
                       (Some a, Some b, Some c', Some d) \<Rightarrow>
                         (let uni = ((a * 16 + b) * 16 + c') * 16 + d
                          in if uni < 256 then
                               (case scanstring s'' of
                                  Inl e \<Rightarrow> Inl e
                                | Inr (str, rest) \<Rightarrow> Inr (char_of uni # str, rest))
                             else Inl Unsupported)
                     | _ \<Rightarrow> Inl JSONDecodeError)
                | _ \<Rightarrow> Inl JSONDecodeError)
             else
               (case backslash esc of
                  None \<Rightarrow> Inl JSONDecodeError
                | Some ch \<Rightarrow>
                    (case scanstring s' of
                       Inl e \<Rightarrow> Inl e
                     | Inr (str, rest) \<Rightarrow> Inr (ch # str, rest))))
      else if (of_char c :: nat) < 32 then Inl JSONDecodeError
      else (case scanstring s of
              Inl e \<Rightarrow> Inl e
            | Inr (str, rest) \<Rightarrow> Inr (c # str, rest)))"

text \<open>\<open>int(literal)\<close> for a literal of digits with an optional sign.\<close>

definition int_of_digits :: "string \<Rightarrow> int" where
  "int_of_digits ds = foldl (\<lambda>n d. 10 * n + int (case index_of d ''0123456789'' of None \<Rightarrow> 0 | Some v \<Rightarrow> v)) 0 ds"

definition int_of_literal :: "string \<Rightarrow> int" where
  "int_of_literal l = (case l of
       [] \<Rightarrow> 0
     | c # ds \<Rightarrow> if c = CHR ''-'' then - int_of_digits ds else int_of_digits (c # ds))"

text \<open>
  The number pattern, matched at the start of the text, part by part: the integer part
  (which must match), the fraction and the exponent (each optional, empty when absent).
\<close>

definition scan_integer :: "string \<Rightarrow> (string \<times> string) option" where
  "scan_integer s =
     (let (sign, s1) = (case s of
                          [] \<Rightarrow> ([], s)
                        | c # r \<Rightarrow> if c = CHR ''-'' then ([c], r) else ([], s))
      in case s1 of
           [] \<Rightarrow> None
         | d # r \<Rightarrow>
             if \<not> isdigit d then None
             else if d = CHR ''0'' then Some (sign @ [d], r)
             else Some (sign @ d # takeWhile isdigit r, dropWhile isdigit r))"

definition scan_frac :: "string \<Rightarrow> string \<times> string" where
  "scan_frac s =
     (case s of
        p # f # r \<Rightarrow>
          if p = CHR ''.'' \<and> isdigit f
          then (p # f # takeWhile isdigit r, dropWhile isdigit r)
          else ([], s)
      | _ \<Rightarrow> ([], s))"

definition scan_exp :: "string \<Rightarrow> string \<times> string" where
  "scan_exp s =
     (case s of
        [] \<Rightarrow> ([], s)
      | e # r \<Rightarrow>
          if e = CHR ''e'' \<or> e = CHR ''E'' then
            (let (sg, r') = (case r of
                               [] \<Rightarrow> ([], r)
                             | g # r2 \<Rightarrow>
                                 if g = CHR ''-'' \<or> g = CHR ''+'' then ([g], r2) else ([], r))
             in case r' of
                  [] \<Rightarrow> ([], s)
                | x # r3 \<Rightarrow>
                    if isdigit x
                    then (e # sg @ x # takeWhile isdigit r3, dropWhile isdigit r3)
                    else ([], s))
          else ([], s))"

definition scan_number :: "string \<Rightarrow> (json \<times> string) option" where
  "scan_number s =
     (case scan_integer s of
        None \<Rightarrow> None
      | Some (integer, s2) \<Rightarrow>
          (let (frac, s3) = scan_frac s2;
               (exp, s4) = scan_exp s3
           in Some (if frac \<noteq> [] \<or> exp \<noteq> []
                    then JFloat (integer @ frac @ exp)
                    else JInt (int_of_literal integer), s4)))"

text \<open>
  A key of an object with its colon, called at the opening quote: the key and the text
  at the start of the value.
\<close>

definition object_key :: "string \<Rightarrow> exn + (string \<times> string)" where
  "object_key s =
     (case s of
        [] \<Rightarrow> Inl JSONDecodeError
      | q # r \<Rightarrow>
          if q \<noteq> CHR 0x22 then Inl JSONDecodeError
          else
            (case scanstring r of
               Inl e \<Rightarrow> Inl e
             | Inr (key, r1) \<Rightarrow>
                 (case skip_ws r1 of
                    [] \<Rightarrow> Inl JSONDecodeError
                  | c # r2 \<Rightarrow>
                      if c = CHR '':'' then Inr (key, skip_ws r2) else Inl JSONDecodeError)))"

text \<open>\<open>dict(pairs)\<close>: of two equal keys the later value wins, at the place of the first.\<close>

definition dict_of_pairs :: "(string \<times> json) list \<Rightarrow> (string \<times> json) list" where
  "dict_of_pairs pairs = fold (\<lambda>(k, v). AList.update k v) pairs []"

text \<open>
  The decoder keeps the containers it is inside of on a stack: a list with the elements
  read so far (latest first), or an object with the pairs read so far and the key whose
  value is being read.  \<open>decode_value\<close> is called where a value starts, \<open>decode_after\<close>
  where one has ended.
\<close>

datatype frame = FArr "json list" | FObj "(string \<times> json) list" string

function decode_value :: "frame list \<Rightarrow> string \<Rightarrow> exn + json"
  and decode_after :: "frame list \<Rightarrow> json \<Rightarrow> string \<Rightarrow> exn + json" where
  "decode_value st s =
     (case s of
        [] \<Rightarrow> Inl JSONDecodeError
      | c # r \<Rightarrow>
          if c = CHR 0x22 then
            (case scanstring r of
               Inl e \<Rightarrow> Inl e
             | Inr (str, r') \<Rightarrow> decode_after st (JStr str) r')
          else if c = CHR ''{'' then
            (case skip_ws r of
               [] \<Rightarrow> Inl JSONDecodeError
             | c1 # r1 \<Rightarrow>
                 if c1 = CHR ''}'' then decode_after st (JObj []) r1
                 else
                   (case object_key (c1 # r1) of
                      Inl e \<Rightarrow> Inl e
                    | Inr (key, r2) \<Rightarrow> decode_value (FObj [] key # st) r2))
          else if c = CHR ''['' then
            (case skip_ws r of
               [] \<Rightarrow> Inl JSONDecodeError
             | c1 # r1 \<Rightarrow>
                 if c1 = CHR '']'' then decode_after st (JArr []) r1
                 else decode_value (FArr [] # st) (c1 # r1))
          else if startswith s ''null'' then decode_after st JNull (drop 4 s)
          else if startswith s ''true'' then decode_after st (JBool True) (drop 4 s)
          else if startswith s ''false'' then decode_after st (JBool False) (drop 5 s)
          else
            (case scan_number s of
               Some (num, r') \<Rightarrow> decode_after st num r'
             | None \<Rightarrow>
                 if startswith s ''NaN'' then decode_after st (JFloat ''NaN'') (drop 3 s)
                 else if startswith s ''Infinity''
                   then decode_after st (JFloat ''Infinity'') (drop 8 s)
                 else if startswith s ''-Infinity''
                   then decode_after st (JFloat ''-Infinity'') (drop 9 s)
                 else Inl JSONDecodeError))"
| "decode_after st v s =
     (case st of
        [] \<Rightarrow> (if skip_ws s = [] then Inr v else Inl JSONDecodeError)
      | FArr acc # st' \<Rightarrow>
          (case skip_ws s of
             [] \<Rightarrow> Inl JSONDecodeError
           | c # r \<Rightarrow>
               if c = CHR '']'' then decode_after st' (JArr (rev (v # acc))) r
               else if c = CHR '','' then decode_value (FArr (v # acc) # st') (skip_ws r)
               else Inl JSONDecodeError)
      | FObj acc key # st' \<Rightarrow>
          (case skip_ws s of
             [] \<Rightarrow> Inl JSONDecodeError
           | c # r \<Rightarrow>
               if c = CHR ''}''
                 then decode_after st' (JObj (dict_of_pairs (acc @ [(key, v)]))) r
               else if c = CHR '','' then
                 (case object_key (skip_ws r) of
                    Inl e \<Rightarrow> Inl e
                  | Inr (key', r') \<Rightarrow> decode_value (FObj (acc @ [(key, v)]) key' # st') r')
               else Inl JSONDecodeError))"
  by pat_completeness auto
termination
proof -
  have ws: "\<And>s. length (skip_ws s) \<le> length s"
    by (simp add: skip_ws_def length_dropWhile_le)
  have ws_cons: "\<And>s c r. skip_ws s = c # r \<Longrightarrow> length r < length s"
  proof -
    fix s c r
    assume "skip_ws s = c # r"
    with ws [of s] show "length r < length s" by simp
  qed
  have step: "\<And>c t str rest. scanstring (c # t) = Inr (str, rest) \<Longrightarrow>
      rest = t \<or> (\<exists>t' str'. length t' \<le> length t \<and> scanstring t' = Inr (str', rest))"
    by (auto split: if_splits list.splits option.splits sum.splits prod.splits simp: Let_def)
  have str: "\<And>s str rest. scanstring s = Inr (str, rest) \<Longrightarrow> length rest < length s"
  proof -
    fix s str rest
    show "scanstring s = Inr (str, rest) \<Longrightarrow> length rest < length s"
    proof (induction s arbitrary: str rule: length_induct)
      case (1 s)
      show ?case
      proof (cases s)
        case Nil
        with 1(2) show ?thesis by simp
      next
        case (Cons c t)
        with 1(2) step have "rest = t
            \<or> (\<exists>t' str'. length t' \<le> length t \<and> scanstring t' = Inr (str', rest))"
          by blast
        then show ?thesis
        proof
          assume "rest = t"
          with Cons show ?thesis by simp
        next
          assume "\<exists>t' str'. length t' \<le> length t \<and> scanstring t' = Inr (str', rest)"
          then obtain t' str' where t': "length t' \<le> length t" "scanstring t' = Inr (str', rest)"
            by blast
          with Cons have "length t' < length s" by simp
          with 1(1) t'(2) have "length rest < length t'" by blast
          with t'(1) Cons show ?thesis by simp
        qed
      qed
    qed
  qed
  have key: "\<And>s k rest. object_key s = Inr (k, rest) \<Longrightarrow> length rest < length s"
  proof -
    fix s k rest
    assume a: "object_key s = Inr (k, rest)"
    then obtain q r key r1 c r2 where
      s: "s = q # r" and sc: "scanstring r = Inr (key, r1)"
      and sk: "skip_ws r1 = c # r2" and rest: "rest = skip_ws r2"
      by (auto simp: object_key_def split: list.splits if_splits sum.splits)
    from str [OF sc] ws_cons [OF sk] ws [of r2] s rest show "length rest < length s"
      by simp
  qed
  have int: "\<And>s l rest. scan_integer s = Some (l, rest) \<Longrightarrow> length rest < length s"
    unfolding scan_integer_def
    by (auto split: if_splits list.splits
        simp: Let_def less_Suc_eq_le length_dropWhile_le le_SucI)
  have frac: "\<And>s l rest. scan_frac s = (l, rest) \<Longrightarrow> length rest \<le> length s"
    unfolding scan_frac_def
    by (auto split: if_splits list.splits
        simp: Let_def less_Suc_eq_le length_dropWhile_le le_SucI)
  have exp: "\<And>s l rest. scan_exp s = (l, rest) \<Longrightarrow> length rest \<le> length s"
    unfolding scan_exp_def
    by (auto split: if_splits list.splits
        simp: Let_def less_Suc_eq_le length_dropWhile_le le_SucI)
  have num: "\<And>s v rest. scan_number s = Some (v, rest) \<Longrightarrow> length rest < length s"
  proof -
    fix s v rest
    assume a: "scan_number s = Some (v, rest)"
    then obtain integer s2 where i: "scan_integer s = Some (integer, s2)"
      by (auto simp: scan_number_def split: option.splits)
    obtain fr s3 where f: "scan_frac s2 = (fr, s3)" by (cases "scan_frac s2")
    obtain ex s4 where e: "scan_exp s3 = (ex, s4)" by (cases "scan_exp s3")
    from a i f e have "rest = s4" by (simp add: scan_number_def)
    with int [OF i] frac [OF f] exp [OF e] show "length rest < length s" by simp
  qed
  have k1: "\<And>s c r a b. skip_ws s = c # r \<Longrightarrow> object_key (c # r) = Inr (a, b)
      \<Longrightarrow> length b \<le> length s"
  proof -
    fix s c r a b
    assume "skip_ws s = c # r" and "object_key (c # r) = Inr (a, b)"
    with key [of "c # r" a b] ws [of s] show "length b \<le> length s" by simp
  qed
  have k2: "\<And>s c r. skip_ws s = c # r \<Longrightarrow> length (skip_ws r) < length s"
  proof -
    fix s c r
    assume "skip_ws s = c # r"
    with ws_cons [of s c r] ws [of r] show "length (skip_ws r) < length s" by simp
  qed
  have k3: "\<And>s c r a b. skip_ws s = c # r \<Longrightarrow> object_key (skip_ws r) = Inr (a, b)
      \<Longrightarrow> length b < length s"
  proof -
    fix s c r a b
    assume "skip_ws s = c # r" and "object_key (skip_ws r) = Inr (a, b)"
    with key [of "skip_ws r" a b] k2 [of s c r] show "length b < length s" by simp
  qed
  show ?thesis
    by (relation "measure (\<lambda>x. case x of Inl (st, s) \<Rightarrow> length s | Inr (st, v, s) \<Rightarrow> length s)")
      (auto dest: str num ws_cons intro: k1 k2 k3 simp: less_Suc_eq_le ws le_SucI)
qed

declare decode_value.simps [simp del] decode_after.simps [simp del]

definition json_loads :: "string \<Rightarrow> exn + json" where
  "json_loads s = decode_value [] (skip_ws s)"

subsection \<open>Stage 1: the decoded plan, completed with defaults\<close>

text \<open>
  Lines 148 to 154: the dictionary literal reads the five meals of \<open>day_data\<close> in order,
  each with \<open>day_data.get(meal, "Not specified")\<close>.
\<close>

fun get_meals :: "string list \<Rightarrow> json \<Rightarrow> exn + json dict" where
  "get_meals [] day_data = Inr []"
| "get_meals (meal # rest) day_data =
     (case py_get day_data meal not_specified of
        Inl e \<Rightarrow> Inl e
      | Inr v \<Rightarrow>
          (case get_meals rest day_data of
             Inl e \<Rightarrow> Inl e
           | Inr d \<Rightarrow> Inr ((meal, v) # d)))"

text \<open>
  Lines 138 to 154, the body of the loop: the entry of one day, all defaults when the
  key is absent.
\<close>

definition day_entry :: "json \<Rightarrow> string \<Rightarrow> exn + json dict" where
  "day_entry diet_plan_json day_key =
     (case py_in day_key diet_plan_json of
        Inl e \<Rightarrow> Inl e
      | Inr present \<Rightarrow>
          if \<not> present then Inr default_day
          else
            (case py_getitem diet_plan_json day_key of
               Inl e \<Rightarrow> Inl e
             | Inr day_data \<Rightarrow> get_meals meal_keys day_data))"

text \<open>Lines 135 to 154: the loop over \<open>range(1, 8)\<close>.\<close>

fun stage1_loop :: "nat list \<Rightarrow> json \<Rightarrow> json dict dict \<Rightarrow> exn + json dict dict" where
  "stage1_loop [] diet_plan_json structured_response = Inr structured_response"
| "stage1_loop (day_num # rest) diet_plan_json structured_response =
     (let day_key = ''day'' @ str_nat day_num
      in case day_entry diet_plan_json day_key of
           Inl e \<Rightarrow> Inl e
         | Inr d \<Rightarrow>
             stage1_loop rest diet_plan_json (AList.update day_key d structured_response))"

definition stage1 :: "json \<Rightarrow> exn + json dict dict" where
  "stage1 diet_plan_json = stage1_loop [1..<8] diet_plan_json []"

subsection \<open>Stages 2 and 3: the fallback on a decode error\<close>

definition colon_or_space :: cset where
  "colon_or_space = CUnion (CChar (CHR '':'')) CSpace"

definition day_patterns :: "regex list" where
  "day_patterns =
     [seqs [Lit ''Day '', Grp 1 (Rep CDigit 1 True), Rep colon_or_space 0 True,
            Grp 2 (Rep CAny 0 False),
            Ahead (alts [seqs [Lit ''Day '', Rep CDigit 1 True], Dollar])],
      seqs [Lit ''day'', Grp 1 (Rep CDigit 1 True), Rep colon_or_space 0 True,
            Grp 2 (Rep CAny 0 False),
            Ahead (alts [seqs [Lit ''day'', Rep CDigit 1 True], Dollar])],
      seqs [Lit ''DAY '', Grp 1 (Rep CDigit 1 True), Rep colon_or_space 0 True,
            Grp 2 (Rep CAny 0 False),
            Ahead (alts [seqs [Lit ''DAY '', Rep CDigit 1 True], Dollar])]]"

text \<open>A meal pattern: \<open>label[:\s]*(.*?)(?=stop|...|$)\<close>.\<close>

definition meal_pattern :: "string \<Rightarrow> string list \<Rightarrow> regex" where
  "meal_pattern label stops =
     seqs [Lit label, Rep colon_or_space 0 True, Grp 1 (Rep CAny 0 False),
           Ahead (alts (map Lit stops @ [Dollar]))]"

definition meal_patterns :: "(string \<times> regex) list" where
  "meal_patterns =
     [(''breakfast'', meal_pattern ''breakfast'' [''lunch'', ''dinner'', ''snack'']),
      (''morning_snack'',
         meal_pattern ''morning snack'' [''lunch'', ''dinner'', ''breakfast'', ''evening'']),
      (''lunch'', meal_pattern ''lunch'' [''breakfast'', ''dinner'', ''snack'']),
      (''evening_snack'',
         meal_pattern ''evening snack'' [''breakfast'', ''lunch'', ''dinner'', ''morning'']),
      (''dinner'', meal_pattern ''dinner'' [''breakfast'', ''lunch'', ''snack''])]"

text \<open>Lines 193 to 196: the loop over \<open>meal_patterns.items()\<close> for one day block.\<close>

fun apply_meal_patterns :: "(string \<times> regex) list \<Rightarrow> string \<Rightarrow> json dict \<Rightarrow> exn + json dict" where
  "apply_meal_patterns [] day_content day_data = Inr day_data"
| "apply_meal_patterns ((meal_key, pattern) # rest) day_content day_data =
     (case re_search True pattern day_content of
        None \<Rightarrow> apply_meal_patterns rest day_content day_data
      | Some meal_match \<Rightarrow>
          (case group meal_match 1 of
             None \<Rightarrow> Inl AttributeError
           | Some g \<Rightarrow>
               apply_meal_patterns rest day_content
                 (AList.update meal_key (JStr (strip g)) day_data)))"

text \<open>Lines 175 to 198: the loop over the matches of one day pattern.\<close>

fun add_days :: "(string \<times> string) list \<Rightarrow> json dict dict \<Rightarrow> exn + json dict dict" where
  "add_days [] structured_response = Inr structured_response"
| "add_days ((day_num, day_content) # rest) structured_response =
     (case apply_meal_patterns meal_patterns day_content default_day of
        Inl e \<Rightarrow> Inl e
      | Inr day_data \<Rightarrow>
          add_days rest (AList.update (''day'' @ day_num) day_data structured_response))"

text \<open>
  Lines 172 to 198: the loop over the three day patterns.  The loop has no \<open>break\<close>: each
  pattern is searched, and each one that has matches writes its days.
\<close>

fun try_day_patterns :: "regex list \<Rightarrow> string \<Rightarrow> json dict dict \<Rightarrow> exn + json dict dict" where
  "try_day_patterns [] diet_plan_text structured_response = Inr structured_response"
| "try_day_patterns (pattern # rest) diet_plan_text structured_response =
     (let day_matches = re_findall2 True pattern diet_plan_text
      in if day_matches \<noteq> [] then
           (case add_days day_matches structured_response of
              Inl e \<Rightarrow> Inl e
            | Inr structured_response' \<Rightarrow>
                try_day_patterns rest diet_plan_text structured_response')
         else try_day_patterns rest diet_plan_text structured_response)"

text \<open>Lines 200 to 208: seven default days when nothing was found.\<close>

definition all_default :: "json dict dict" where
  "all_default = fold (\<lambda>day_num. AList.update (''day'' @ str_nat day_num) default_day) [1..<8] []"

definition fallback :: "string \<Rightarrow> exn + json dict dict" where
  "fallback diet_plan_text =
     (case try_day_patterns day_patterns diet_plan_text [] of
        Inl e \<Rightarrow> Inl e
      | Inr structured_response \<Rightarrow>
          Inr (if structured_response = [] then all_default else structured_response))"

subsection \<open>The parser\<close>

text \<open>
  The dictionary returned: the keys \<open>diet_plan\<close> and \<open>region\<close>, and the key \<open>note\<close> when
  \<open>note_text\<close> is not \<open>None\<close>.
\<close>

record response =
  diet_plan :: "json dict dict"
  region :: string
  note_text :: "string option"

definition manual_note :: string where
  "manual_note = ''The diet plan could not be parsed as JSON and was manually structured.''"

text \<open>
  Lines 109 to 214, from the text of the completion to the value returned.  The
  \<open>except\<close> clause catches \<open>json.JSONDecodeError\<close> only, and only the decoder can raise it
  inside the \<open>try\<close>; any other exception leaves the function.  \<open>loads\<close> is the decoder.
\<close>

definition parse_diet_plan :: "(string \<Rightarrow> exn + json) \<Rightarrow> string \<Rightarrow> string \<Rightarrow> exn + response" where
  "parse_diet_plan loads completion_text region_name =
     (let diet_plan_text = extract_json_text completion_text
      in case loads diet_plan_text of
           Inr diet_plan_json \<Rightarrow>
             (case stage1 diet_plan_json of
                Inl e \<Rightarrow> Inl e
              | Inr structured_response \<Rightarrow>
                  Inr \<lparr>diet_plan = structured_response, region = region_name, note_text = None\<rparr>)
         | Inl e \<Rightarrow>
             if e = JSONDecodeError then
               (case fallback diet_plan_text of
                  Inl e' \<Rightarrow> Inl e'
                | Inr structured_response \<Rightarrow>
                    Inr \<lparr>diet_plan = structured_response, region = region_name,
                         note_text = Some manual_note\<rparr>)
             else Inl e)"

section \<open>The embedding provider\<close>

text \<open>
  \<open>EmbeddingModel.encode\<close> of \<open>api/embedding_utils.py\<close>.  The tokenizer, the network and
  the tensor arithmetic after it (mean pooling, normalisation, conversion to lists) are
  external: each is a function that returns or raises, and every call of the tokenizer and
  of the network is written to a trace.  The model leaves open what tensors (\<open>'t\<close>) and
  embedding vectors (\<open>'v\<close>) are.
\<close>

datatype 't call = TokenizerCall "string list" | ModelCall 't

record ('t, 'v) embedding_model =
  tokenizer :: "string list \<Rightarrow> exn + 't"
  network :: "'t \<Rightarrow> exn + 't"
  pool_normalize :: "'t \<Rightarrow> 't \<Rightarrow> exn + 'v list"

text \<open>
  The loop \<open>for i in range(0, len(sentences), batch_size)\<close> for a positive step; an
  exception inside it is logged and raised again.
\<close>

function encode_loop :: "('t, 'v) embedding_model \<Rightarrow> string list \<Rightarrow> nat \<Rightarrow> nat \<Rightarrow> 'v list
    \<Rightarrow> 't call list \<Rightarrow> (exn + 'v list) \<times> 't call list" where
  "encode_loop m sentences batch_size i all_embeddings trace =
     (if i < length sentences \<and> 0 < batch_size then
        (let batch = take batch_size (drop i sentences);
             trace1 = trace @ [TokenizerCall batch]
         in case tokenizer m batch of
              Inl e \<Rightarrow> (Inl e, trace1)
            | Inr encoded \<Rightarrow>
                (let trace2 = trace1 @ [ModelCall encoded]
                 in case network m encoded of
                      Inl e \<Rightarrow> (Inl e, trace2)
                    | Inr out \<Rightarrow>
                        (case pool_normalize m out encoded of
                           Inl e \<Rightarrow> (Inl e, trace2)
                         | Inr sentence_embeddings \<Rightarrow>
                             encode_loop m sentences batch_size (i + batch_size)
                               (all_embeddings @ sentence_embeddings) trace2)))
      else (Inr all_embeddings, trace))"
  by pat_completeness auto
termination
  by (relation "measure (\<lambda>(m, sentences, batch_size, i, acc, trace). length sentences - i)") auto

declare encode_loop.simps [simp del]

text \<open>
  \<open>encode(sentences, batch_size)\<close>: the result and the calls made.  \<open>range\<close> raises
  \<open>ValueError\<close> for the step 0 and is empty for a negative step.
\<close>

definition encode :: "('t, 'v) embedding_model \<Rightarrow> string list \<Rightarrow> int
    \<Rightarrow> (exn + 'v list) \<times> 't call list" where
  "encode m sentences batch_size =
     (if sentences = [] then (Inr [], [])
      else if batch_size = 0 then (Inl ValueError, [])
      else if batch_size < 0 then (Inr [], [])
      else encode_loop m sentences (nat batch_size) 0 [] [])"

section \<open>The nutrition recommendation\<close>

text \<open>
  \<open>get_nutrition_recommendation\<close> of \<open>api/nutrition.py\<close>, with its collaborators: the
  environment, the vector store (listing the collections stands for the client as a
  whole), the embedding provider and the language model.
\<close>

record ('t, 'v) collaborators =
  getenv :: "string \<Rightarrow> string option"
  get_collections :: "exn + string list"
  get_embedding_model :: "exn + ('t, 'v) embedding_model"
  search :: "string \<Rightarrow> 'v \<Rightarrow> int \<Rightarrow> exn + json dict list"
  chat_completion :: "string \<Rightarrow> exn + string"

definition COLLECTION_NAME :: string where
  "COLLECTION_NAME = ''nutrition_data''"

text \<open>\<open>not os.getenv(name)\<close>: the variable is unset or empty.\<close>

definition missing :: "string option \<Rightarrow> bool" where
  "missing v \<longleftrightarrow> (case v of None \<Rightarrow> True | Some s \<Rightarrow> s = [])"

text \<open>
  Lines 47 and 48: \<open>res.payload.get("text", "")\<close> for each result, joined with two
  newlines; \<open>str.join\<close> raises \<open>TypeError\<close> on an item that is no string.
\<close>

fun payload_texts :: "json dict list \<Rightarrow> exn + string list" where
  "payload_texts [] = Inr []"
| "payload_texts (payload # rest) =
     (case (case map_of payload ''text'' of None \<Rightarrow> JStr [] | Some v \<Rightarrow> v) of
        JStr t \<Rightarrow> (case payload_texts rest of Inl e \<Rightarrow> Inl e | Inr ts \<Rightarrow> Inr (t # ts))
      | _ \<Rightarrow> Inl TypeError)"

fun join :: "string \<Rightarrow> string list \<Rightarrow> string" where
  "join sep [] = []"
| "join sep [x] = x"
| "join sep (x # xs) = x @ sep @ join sep xs"

text \<open>The prompt of lines 65 to 89, line by line.\<close>

definition build_prompt :: "string \<Rightarrow> string \<Rightarrow> string \<Rightarrow> string" where
  \<open>build_prompt query combined_info region_name =
     join [CHR 0x0A]
       ['''',
        ''You are a nutrition expert specializing in maternal health. Based on the following information about a pregnant woman and nutritional guidelines, create a personalized 7-day diet plan.'',
        '''',
        ''Woman's details: '' @ query,
        '''',
        ''Relevant nutrition information: '' @ combined_info,
        '''',
        ''Geographic region: '' @ region_name,
        '''',
        ''Create a detailed 7-day diet plan specifically tailored for this pregnant woman considering her geographical region, local food availability, and nutritional needs. Include breakfast, lunch, dinner, and snacks for each day. Focus on providing adequate protein, iron, folate, calcium, and other essential nutrients for pregnancy.'',
        '''',
        ''Your response should be in a structured JSON format with the following structure:'',
        ''{'',
        ''  "day1": {'',
        ''    "breakfast": "Detailed breakfast description",'',
        ''    "morning_snack": "Detailed morning snack description",'',
        ''    "lunch": "Detailed lunch description",'',
        ''    "evening_snack": "Detailed evening snack description",'',
        ''    "dinner": "Detailed dinner description"'',
        ''  },'',
        ''  ... and so on for all 7 days'',
        ''}'',
        '''',
        ''Make sure your response is valid JSON that can be parsed directly.'',
        '''']\<close>

text \<open>
  Lines 19 to 107, up to the text of the completion.  The query vector is
  \<open>model.encode([query])[0]\<close>, which raises \<open>IndexError\<close> on an empty result.
\<close>

definition request_completion :: "('t, 'v) collaborators \<Rightarrow> string \<Rightarrow> int \<Rightarrow> exn + string" where
  "request_completion c query limit =
     (if missing (getenv c ''QDRANT_URL'') \<or> missing (getenv c ''QDRANT_API_KEY'')
         \<or> missing (getenv c ''LLAMA_API_KEY'') \<or> missing (getenv c ''E2E_NETWORKS_URL'')
      then Inl ValueError
      else
        (case get_collections c of
           Inl e \<Rightarrow> Inl e
         | Inr collections \<Rightarrow>
             if COLLECTION_NAME \<notin> set collections then Inl ValueError
             else
               (case get_embedding_model c of
                  Inl e \<Rightarrow> Inl e
                | Inr model \<Rightarrow>
                    (case fst (encode model [query] 32) of
                       Inl e \<Rightarrow> Inl e
                     | Inr [] \<Rightarrow> Inl IndexError
                     | Inr (query_vector # _) \<Rightarrow>
                         (case search c COLLECTION_NAME query_vector limit of
                            Inl e \<Rightarrow> Inl e
                          | Inr results \<Rightarrow>
                              (case payload_texts results of
                                 Inl e \<Rightarrow> Inl e
                               | Inr nutrition_info \<Rightarrow>
                                   (let combined_info = join [CHR 0x0A, CHR 0x0A] nutrition_info;
                                        region_name = extract_region query;
                                        prompt = build_prompt query combined_info region_name
                                    in chat_completion c prompt)))))))"

text \<open>The function: the completion is requested and parsed.\<close>

definition get_nutrition_recommendation :: "('t, 'v) collaborators \<Rightarrow> string \<Rightarrow> int
    \<Rightarrow> exn + response" where
  "get_nutrition_recommendation c query limit =
     (case request_completion c query limit of
        Inl e \<Rightarrow> Inl e
      | Inr diet_plan_text \<Rightarrow>
          parse_diet_plan json_loads diet_plan_text (extract_region query))"

section \<open>Document ingestion\<close>

text \<open>
  \<open>process_pdf\<close> of \<open>api/pdf_upload.py\<close>.  Its collaborators are those of the
  recommendation and, besides: \<open>int\<close> on a string (\<open>None\<close> for \<open>ValueError\<close>), the creation
  of a collection, the temporary file (\<open>NamedTemporaryFile(delete=False)\<close> creates the file
  and gives its path), the PDF loader, the text splitter, \<open>uuid4\<close>, \<open>upsert\<close> and
  \<open>os.unlink\<close>.  An outcome \<open>exn option\<close> is \<open>None\<close> when the call returns.
\<close>

record page =
  page_content :: string
  page_index :: "int option"

record chunk =
  chunk_text :: string
  chunk_source :: string
  chunk_page :: int
  chunk_number :: nat

record 'v point =
  point_id :: string
  point_vector :: 'v
  point_payload :: chunk

record upload_file =
  filename :: string
  read :: "exn + string"

record ('t, 'v) pdf_collaborators = "('t, 'v) collaborators" +
  py_int :: "string \<Rightarrow> int option"
  create_collection :: "string \<Rightarrow> exn option"
  new_temp_file :: "exn + string"
  write_temp :: "string \<Rightarrow> string \<Rightarrow> exn option"
  load_pages :: "string \<Rightarrow> exn + page list"
  make_splitter :: "int \<Rightarrow> int \<Rightarrow> exn option"
  split_text :: "int \<Rightarrow> int \<Rightarrow> string \<Rightarrow> exn + string list"
  uuid4 :: "nat \<Rightarrow> string"
  upsert :: "string \<Rightarrow> 'v point list \<Rightarrow> exn option"
  unlink :: "string \<Rightarrow> exn option"

text \<open>
  What the function changes: the writing calls made to the vector store, in order, and the
  temporary files that exist.
\<close>

datatype 'v store_op = CreateCollection string | Upsert string "'v point list"

record 'v pdf_state =
  store_ops :: "'v store_op list"
  temp_files :: "string list"

record pdf_response =
  status :: string
  message :: string
  chunks_count :: "nat option"

definition getenv_or :: "('t, 'v, 'a) collaborators_scheme \<Rightarrow> string \<Rightarrow> string \<Rightarrow> string" where
  "getenv_or w name dflt = (case getenv w name of None \<Rightarrow> dflt | Some v \<Rightarrow> v)"

text \<open>
  Lines 23 to 53: the environment, the collection (created when it is not listed) and the
  embedding model.
\<close>

definition prepare :: "('t, 'v) pdf_collaborators \<Rightarrow> string \<Rightarrow> 'v pdf_state
    \<Rightarrow> (exn + int \<times> int \<times> ('t, 'v) embedding_model) \<times> 'v pdf_state" where
  "prepare w collection_name s =
     (if missing (getenv w ''QDRANT_URL'') \<or> missing (getenv w ''QDRANT_API_KEY'')
      then (Inl ValueError, s)
      else
        (case py_int w (getenv_or w ''CHUNK_SIZE'' ''500'') of
           None \<Rightarrow> (Inl ValueError, s)
         | Some chunk_size \<Rightarrow>
             (case py_int w (getenv_or w ''CHUNK_OVERLAP'' ''100'') of
                None \<Rightarrow> (Inl ValueError, s)
              | Some chunk_overlap \<Rightarrow>
                  (case get_collections w of
                     Inl e \<Rightarrow> (Inl e, s)
                   | Inr collections \<Rightarrow>
                       (let collection_exists = (collection_name \<in> set collections);
                            s1 = (if \<not> collection_exists
                                  then s\<lparr>store_ops := store_ops s @ [CreateCollection collection_name]\<rparr>
                                  else s)
                        in case (if \<not> collection_exists then create_collection w collection_name
                                 else None) of
                             Some e \<Rightarrow> (Inl e, s1)
                           | None \<Rightarrow>
                               (case get_embedding_model w of
                                  Inl e \<Rightarrow> (Inl e, s1)
                                | Inr model \<Rightarrow> (Inr (chunk_size, chunk_overlap, model), s1)))))))"

text \<open>
  Lines 57 to 61, the \<open>with\<close> block: the file is created, the upload is read and written
  to it.  The block stands before the \<open>try\<close> of line 63.
\<close>

definition save_upload :: "('t, 'v) pdf_collaborators \<Rightarrow> upload_file \<Rightarrow> 'v pdf_state
    \<Rightarrow> (exn + string) \<times> 'v pdf_state" where
  "save_upload w file s =
     (case new_temp_file w of
        Inl e \<Rightarrow> (Inl e, s)
      | Inr temp_file_path \<Rightarrow>
          (let s1 = s\<lparr>temp_files := temp_file_path # temp_files s\<rparr>
           in case read file of
                Inl e \<Rightarrow> (Inl e, s1)
              | Inr content \<Rightarrow>
                  (case write_temp w temp_file_path content of
                     Some e \<Rightarrow> (Inl e, s1)
                   | None \<Rightarrow> (Inr temp_file_path, s1))))"

text \<open>Lines 83 to 91: the chunks of the pages, numbered from 1 within each page.\<close>

fun number_chunks :: "string \<Rightarrow> int \<Rightarrow> nat \<Rightarrow> string list \<Rightarrow> chunk list" where
  "number_chunks src pg i [] = []"
| "number_chunks src pg i (t # ts) =
     \<lparr>chunk_text = t, chunk_source = src, chunk_page = pg, chunk_number = i + 1\<rparr>
       # number_chunks src pg (i + 1) ts"

fun make_chunks :: "('t, 'v) pdf_collaborators \<Rightarrow> int \<Rightarrow> int \<Rightarrow> string \<Rightarrow> page list
    \<Rightarrow> exn + chunk list" where
  "make_chunks w chunk_size chunk_overlap src [] = Inr []"
| "make_chunks w chunk_size chunk_overlap src (p # pages) =
     (case split_text w chunk_size chunk_overlap (page_content p) of
        Inl e \<Rightarrow> Inl e
      | Inr page_chunks \<Rightarrow>
          (case make_chunks w chunk_size chunk_overlap src pages of
             Inl e \<Rightarrow> Inl e
           | Inr chunks \<Rightarrow>
               Inr (number_chunks src
                      ((case page_index p of None \<Rightarrow> 0 | Some n \<Rightarrow> n) + 1) 0 page_chunks
                    @ chunks)))"

text \<open>Lines 107 to 119: one point for each chunk; \<open>embeddings[i]\<close> may be out of range.\<close>

fun make_points :: "('t, 'v) pdf_collaborators \<Rightarrow> nat \<Rightarrow> chunk list \<Rightarrow> 'v list
    \<Rightarrow> exn + 'v point list" where
  "make_points w i [] embeddings = Inr []"
| "make_points w i (c # chunks) embeddings =
     (if i < length embeddings then
        (case make_points w (i + 1) chunks embeddings of
           Inl e \<Rightarrow> Inl e
         | Inr points \<Rightarrow>
             Inr (\<lparr>point_id = uuid4 w i, point_vector = embeddings ! i, point_payload = c\<rparr>
                  # points))
      else Inl IndexError)"

text \<open>Lines 64 to 130, the body of the \<open>try\<close>.\<close>

definition ingest :: "('t, 'v) pdf_collaborators \<Rightarrow> ('t, 'v) embedding_model \<Rightarrow> upload_file
    \<Rightarrow> string \<Rightarrow> int \<Rightarrow> int \<Rightarrow> string \<Rightarrow> 'v pdf_state
    \<Rightarrow> (exn + pdf_response) \<times> 'v pdf_state" where
  "ingest w model file collection_name chunk_size chunk_overlap temp_file_path s =
     (case load_pages w temp_file_path of
        Inl e \<Rightarrow> (Inl e, s)
      | Inr pages \<Rightarrow>
          if pages = [] then
            (Inr \<lparr>status = ''warning'',
                  message = ''No content found in '' @ filename file @ ''.'',
                  chunks_count = None\<rparr>, s)
          else
            (case make_splitter w chunk_size chunk_overlap of
               Some e \<Rightarrow> (Inl e, s)
             | None \<Rightarrow>
                 (case make_chunks w chunk_size chunk_overlap (filename file) pages of
                    Inl e \<Rightarrow> (Inl e, s)
                  | Inr chunks \<Rightarrow>
                      if chunks = [] then
                        (Inr \<lparr>status = ''warning'',
                              message = ''No text chunks extracted from '' @ filename file @ ''.'',
                              chunks_count = None\<rparr>, s)
                      else
                        (case fst (encode model (map chunk_text chunks) 32) of
                           Inl e \<Rightarrow> (Inl e, s)
                         | Inr embeddings \<Rightarrow>
                             (case make_points w 0 chunks embeddings of
                                Inl e \<Rightarrow> (Inl e, s)
                              | Inr points \<Rightarrow>
                                  (let s1 = s\<lparr>store_ops :=
                                              store_ops s @ [Upsert collection_name points]\<rparr>
                                   in case upsert w collection_name points of
                                        Some e \<Rightarrow> (Inl e, s1)
                                      | None \<Rightarrow>
                                          (Inr \<lparr>status = ''success'',
                                                message = ''Uploaded '' @ str_nat (length points)
                                                  @ '' chunks from '' @ filename file @ ''.'',
                                                chunks_count = Some (length points)\<rparr>,
                                           s1)))))))"

text \<open>
  Lines 136 to 140, the \<open>finally\<close>: the file is removed if it exists; an exception of
  \<open>os.unlink\<close> replaces the outcome of the \<open>try\<close>.
\<close>

definition cleanup :: "('t, 'v) pdf_collaborators \<Rightarrow> string
    \<Rightarrow> (exn + pdf_response) \<times> 'v pdf_state \<Rightarrow> (exn + pdf_response) \<times> 'v pdf_state" where
  "cleanup w temp_file_path outcome =
     (let (r, s) = outcome
      in if temp_file_path \<in> set (temp_files s) then
           (case unlink w temp_file_path of
              Some e \<Rightarrow> (Inl e, s)
            | None \<Rightarrow> (r, s\<lparr>temp_files := removeAll temp_file_path (temp_files s)\<rparr>))
         else (r, s))"

definition process_pdf :: "('t, 'v) pdf_collaborators \<Rightarrow> upload_file \<Rightarrow> string \<Rightarrow> 'v pdf_state
    \<Rightarrow> (exn + pdf_response) \<times> 'v pdf_state" where
  "process_pdf w file collection_name s =
     (case prepare w collection_name s of
        (Inl e, s1) \<Rightarrow> (Inl e, s1)
      | (Inr (chunk_size, chunk_overlap, model), s1) \<Rightarrow>
          (case save_upload w file s1 of
             (Inl e, s2) \<Rightarrow> (Inl e, s2)
           | (Inr temp_file_path, s2) \<Rightarrow>
               cleanup w temp_file_path
                 (ingest w model file collection_name chunk_size chunk_overlap
                    temp_file_path s2)))"

section \<open>The encoder of the standard library\<close>

text \<open>
  \<open>json.dumps\<close> with its default settings, for the round trip of a plan: items are
  separated by a comma and a space, a key from its value by a colon and a space; in a
  string the quote, the backslash and the control characters with a short form are
  escaped with a backslash, every other character outside the printable ASCII range as
  \<open>\u00XX\<close>.  (The model writes a float by its literal.)
\<close>

definition hexdigit :: "nat \<Rightarrow> char" where
  "hexdigit n = ''0123456789abcdef'' ! n"

definition escape_char :: "char \<Rightarrow> string" where
  "escape_char c =
     (if c = CHR 0x22 then [CHR 0x5C, CHR 0x22]
      else if c = CHR 0x5C then [CHR 0x5C, CHR 0x5C]
      else if c = CHR 0x0A then [CHR 0x5C, CHR ''n'']
      else if c = CHR 0x0D then [CHR 0x5C, CHR ''r'']
      else if c = CHR 0x09 then [CHR 0x5C, CHR ''t'']
      else if c = CHR 0x0C then [CHR 0x5C, CHR ''f'']
      else if c = CHR 0x08 then [CHR 0x5C, CHR ''b'']
      else
        (let n = (of_char c :: nat)
         in if n < 32 \<or> 126 < n
            then [CHR 0x5C, CHR ''u'', CHR ''0'', CHR ''0'', hexdigit (n div 16), hexdigit (n mod 16)]
            else [c]))"

definition encode_string :: "string \<Rightarrow> string" where
  "encode_string s = CHR 0x22 # concat (map escape_char s) @ [CHR 0x22]"

definition str_int :: "int \<Rightarrow> string" where
  "str_int n = (if n < 0 then CHR ''-'' # str_nat (nat (- n)) else str_nat (nat n))"

fun json_dumps :: "json \<Rightarrow> string" where
  "json_dumps JNull = ''null''"
| "json_dumps (JBool b) = (if b then ''true'' else ''false'')"
| "json_dumps (JInt n) = str_int n"
| "json_dumps (JFloat l) = l"
| "json_dumps (JStr s) = encode_string s"
| "json_dumps (JArr xs) = ''['' @ join '', '' (map json_dumps xs) @ '']''"
| "json_dumps (JObj kvs) =
     ''{'' @ join '', '' (map (\<lambda>kv. encode_string (fst kv) @ '': '' @ json_dumps (snd kv)) kvs)
       @ ''}''"

section \<open>Plans\<close>

text \<open>
  A schema-valid plan: a dictionary with exactly the keys \<open>day1\<close> to \<open>day7\<close>, each day a
  dictionary with exactly the five meal keys, each meal a string.  Two plans are the same
  dictionary when they agree on every day and meal, whatever the order of their keys.
\<close>

fun is_str :: "json \<Rightarrow> bool" where
  "is_str (JStr s) = True"
| "is_str _ = False"

fun is_obj :: "json \<Rightarrow> bool" where
  "is_obj (JObj kvs) = True"
| "is_obj _ = False"

definition complete_day :: "json dict \<Rightarrow> bool" where
  "complete_day meals \<longleftrightarrow>
     distinct (map fst meals) \<and> set (map fst meals) = set meal_keys \<and> list_all is_str (map snd meals)"

definition schema_valid :: "json dict dict \<Rightarrow> bool" where
  "schema_valid plan \<longleftrightarrow>
     distinct (map fst plan) \<and> set (map fst plan) = set day_keys
     \<and> list_all complete_day (map snd plan)"

text \<open>A day entry with exactly the five meal keys, in order, each meal a string.\<close>

definition day_ok :: "json dict \<Rightarrow> bool" where
  "day_ok meals \<longleftrightarrow> map fst meals = meal_keys \<and> list_all is_str (map snd meals)"

definition plan_json :: "json dict dict \<Rightarrow> json" where
  "plan_json plan = JObj (map (\<lambda>(day_key, meals). (day_key, JObj meals)) plan)"

definition plan_map :: "json dict dict \<Rightarrow> string \<Rightarrow> (string \<Rightarrow> json option) option" where
  "plan_map plan day_key = map_option map_of (map_of plan day_key)"

text \<open>Stage 1 on a text: the strict decode and the completion with defaults.\<close>

definition stage1_of_text :: "string \<Rightarrow> exn + json dict dict" where
  "stage1_of_text diet_plan_text =
     (case json_loads diet_plan_text of
        Inl e \<Rightarrow> Inl e
      | Inr diet_plan_json \<Rightarrow> stage1 diet_plan_json)"

section \<open>Collaborators for concrete runs\<close>

text \<open>
  An embedding model whose tokenizer and network return and which gives one vector, and
  collaborators with every variable set, the collection \<open>nutrition_data\<close> present, no search
  result, and a language model that answers every prompt with the given text.
\<close>

definition one_vector_model :: "(unit, nat) embedding_model" where
  "one_vector_model =
     \<lparr>tokenizer = (\<lambda>batch. Inr ()), network = (\<lambda>encoded. Inr ()),
      pool_normalize = (\<lambda>out encoded. Inr [0])\<rparr>"

definition answering :: "string \<Rightarrow> (unit, nat) collaborators" where
  "answering completion_text =
     \<lparr>getenv = (\<lambda>name. Some ''set''), get_collections = Inr [''nutrition_data''],
      get_embedding_model = Inr one_vector_model, search = (\<lambda>collection v limit. Inr []),
      chat_completion = (\<lambda>prompt. Inr completion_text)\<rparr>"

text \<open>
  Collaborators of an ingestion in which every call returns: the two variables of the
  vector store are set and the chunk sizes are not, no collection exists yet, the
  temporary file is \<open>/tmp/tmpab12.pdf\<close>, and the loader finds no page.  Two uploads: one
  that can be read, one whose \<open>read\<close> raises.
\<close>

definition empty_pdf_run :: "(unit, nat) pdf_collaborators" where
  "empty_pdf_run =
     \<lparr>getenv = (\<lambda>name. if name = ''QDRANT_URL'' \<or> name = ''QDRANT_API_KEY''
                          then Some ''set'' else None),
      get_collections = Inr [],
      get_embedding_model = Inr one_vector_model,
      search = (\<lambda>collection v limit. Inr []),
      chat_completion = (\<lambda>prompt. Inr []),
      py_int = (\<lambda>s. if s = ''500'' then Some 500 else if s = ''100'' then Some 100 else None),
      create_collection = (\<lambda>name. None),
      new_temp_file = Inr ''/tmp/tmpab12.pdf'',
      write_temp = (\<lambda>path content. None),
      load_pages = (\<lambda>path. Inr []),
      make_splitter = (\<lambda>chunk_size chunk_overlap. None),
      split_text = (\<lambda>chunk_size chunk_overlap t. Inr [t]),
      uuid4 = (\<lambda>i. ''id-'' @ str_nat i),
      upsert = (\<lambda>collection points. None),
      unlink = (\<lambda>path. None)\<rparr>"

definition readable_upload :: upload_file where
  "readable_upload = \<lparr>filename = ''scheme.pdf'', read = Inr ''%PDF-1.4''\<rparr>"

definition broken_upload :: upload_file where
  "broken_upload = \<lparr>filename = ''scheme.pdf'', read = Inl (Failure ''UploadFile.read'')\<rparr>"

definition fresh_state :: "nat pdf_state" where
  "fresh_state = \<lparr>store_ops = [], temp_files = []\<rparr>"

section \<open>Lower-casing, bit by bit\<close>

text \<open>
  An upper-case letter differs from its lower-case letter in bit 5 only.  The equation is
  the one used to evaluate \<open>lower_char\<close> on a concrete character.
\<close>

lemma lower_char_code [code]:
  "lower_char (Char b0 b1 b2 b3 b4 b5 b6 b7) =
     (if \<not> b5 \<and> b6 \<and>
         (if b7 then \<not> (b0 \<and> b1 \<and> b2 \<and> b4)
          else (b0 \<or> b1 \<or> b2 \<or> b3 \<or> b4) \<and> \<not> (b4 \<and> b3 \<and> (b2 \<or> (b1 \<and> b0))))
      then Char b0 b1 b2 b3 b4 True b6 b7
      else Char b0 b1 b2 b3 b4 b5 b6 b7)"
  by (cases b0; cases b1; cases b2; cases b3; cases b4; cases b5; cases b6; cases b7;
      simp add: lower_char_def char_of_def bit_Suc_0_iff)

section \<open>Properties of the matcher\<close>

text \<open>
  A successful match ends in a call of its continuation; on the way the groups already set
  stay set, and a group that the pattern binds is set.
\<close>

lemma rep_greedy_cont: "rep_greedy p n s k = Some r \<Longrightarrow> \<exists>s'. k s' = Some r"
  by (induction p n s k rule: rep_greedy.induct) (auto split: if_splits option.splits)

lemma rep_lazy_cont: "rep_lazy p n s k = Some r \<Longrightarrow> \<exists>s'. k s' = Some r"
  by (induction p n s k rule: rep_lazy.induct) (auto split: if_splits option.splits)

lemma rmatch_cont:
  "rmatch ic r s cs k = Some res \<Longrightarrow>
     \<exists>s' cs'. k s' cs' = Some res \<and> dom (map_of cs) \<subseteq> dom (map_of cs')
        \<and> (binds i r \<longrightarrow> i \<in> dom (map_of cs'))"
proof (induction r arbitrary: s cs k)
  case (Lit l)
  then show ?case by (auto split: if_splits)
next
  case (Rep c n g)
  then show ?case by (auto split: if_splits dest!: rep_greedy_cont rep_lazy_cont)
next
  case (Grp j r)
  from Grp.prems have "rmatch ic r s cs (\<lambda>s' cs'. k s' ((j, take (length s - length s') s) # cs')) = Some res"
    by simp
  from Grp.IH [OF this] obtain s' cs' where
    k: "k s' ((j, take (length s - length s') s) # cs') = Some res"
    and d: "dom (map_of cs) \<subseteq> dom (map_of cs')"
    and b: "binds i r \<longrightarrow> i \<in> dom (map_of cs')"
    by blast
  show ?case
  proof (intro exI conjI)
    show "k s' ((j, take (length s - length s') s) # cs') = Some res" by (rule k)
    show "dom (map_of cs) \<subseteq> dom (map_of ((j, take (length s - length s') s) # cs'))"
      using d by auto
    show "binds i (Grp j r) \<longrightarrow> i \<in> dom (map_of ((j, take (length s - length s') s) # cs'))"
      using b by auto
  qed
next
  case (Alt a b)
  show ?case
  proof (cases "rmatch ic a s cs k")
    case None
    with Alt.prems have "rmatch ic b s cs k = Some res" by simp
    from Alt.IH(2) [OF this] show ?thesis by fastforce
  next
    case (Some x)
    with Alt.prems have "rmatch ic a s cs k = Some res" by simp
    from Alt.IH(1) [OF this] show ?thesis by fastforce
  qed
next
  case (Seq a b)
  from Seq.prems have "rmatch ic a s cs (\<lambda>s' cs'. rmatch ic b s' cs' k) = Some res" by simp
  from Seq.IH(1) [OF this] obtain s1 cs1 where
    1: "rmatch ic b s1 cs1 k = Some res" "dom (map_of cs) \<subseteq> dom (map_of cs1)"
       "binds i a \<longrightarrow> i \<in> dom (map_of cs1)" by blast
  from Seq.IH(2) [OF 1(1)] obtain s2 cs2 where
    2: "k s2 cs2 = Some res" "dom (map_of cs1) \<subseteq> dom (map_of cs2)"
       "binds i b \<longrightarrow> i \<in> dom (map_of cs2)" by blast
  from 1 2 show ?case by (intro exI [of _ s2] exI [of _ cs2]) auto
next
  case (Ahead r)
  then show ?case by (auto split: option.splits)
next
  case Dollar
  then show ?case by (auto split: if_splits)
qed

lemma re_search_group:
  "re_search ic r s = Some m \<Longrightarrow> binds i r \<Longrightarrow> group m i \<noteq> None"
proof (induction s)
  case Nil
  then obtain e cs where r: "rmatch ic r [] [] (\<lambda>s' cs'. Some (s', cs')) = Some (e, cs)"
    and m: "m = \<lparr>m_start = [], m_end = e, m_caps = cs\<rparr>"
    by (auto split: option.splits)
  from rmatch_cont [OF r, of i] Nil.prems(2) m show ?case
    by (auto simp: group_def)
next
  case (Cons c s)
  show ?case
  proof (cases "rmatch ic r (c # s) [] (\<lambda>s' cs'. Some (s', cs'))")
    case None
    with Cons show ?thesis by simp
  next
    case (Some x)
    obtain e cs where x: "x = (e, cs)" by (cases x)
    with Some Cons.prems(1) have m: "m = \<lparr>m_start = c # s, m_end = e, m_caps = cs\<rparr>" by simp
    from rmatch_cont [OF Some [unfolded x], of i] Cons.prems(2) m show ?thesis
      by (auto simp: group_def)
  qed
qed

lemma binds_label_pattern: "binds 1 (label_pattern l)"
  by (simp add: label_pattern_def)

lemma binds_meal_pattern: "binds 1 (meal_pattern l stops)"
  by (simp add: meal_pattern_def)

lemma apply_patterns_returns:
  "\<forall>(key, p) \<in> set ps. binds 1 p \<Longrightarrow> \<exists>d. apply_patterns ps content sd = Inr d"
proof (induction ps arbitrary: sd)
  case Nil
  then show ?case by simp
next
  case (Cons kp ps)
  obtain key p where kp: "kp = (key, p)" by (cases kp)
  with Cons.prems have b: "binds 1 p" and rest: "\<forall>(key, p) \<in> set ps. binds 1 p" by auto
  show ?case
  proof (cases "re_search True p content")
    case None
    with kp Cons.IH [OF rest] show ?thesis by simp
  next
    case (Some m)
    with re_search_group [OF Some b] obtain g where "group m 1 = Some g" by auto
    with kp Some Cons.IH [OF rest] show ?thesis by simp
  qed
qed

section \<open>Properties of the scheme-record parser\<close>

lemma map_of_filter_values:
  "distinct (map fst xs) \<Longrightarrow>
     map_of (filter (\<lambda>(k, v). P v) xs) k =
       (case map_of xs k of None \<Rightarrow> None | Some v \<Rightarrow> if P v then Some v else None)"
proof (induction xs)
  case Nil
  then show ?case by simp
next
  case (Cons x xs)
  obtain k' v' where x: "x = (k', v')" by (cases x)
  from Cons.prems x have "k' \<notin> fst ` set xs" and d: "distinct (map fst xs)" by auto
  then have "map_of xs k' = None" by (simp add: map_of_eq_None_iff)
  with Cons.IH [OF d] x show ?case by (auto split: option.splits)
qed

lemma list_all_filter_keys:
  "distinct (map fst xs) \<Longrightarrow>
     list_all (\<lambda>(k, v). P v) (filter (\<lambda>(k, v). Q k) xs) =
       (\<forall>k \<in> set (map fst xs). Q k \<longrightarrow> (\<exists>v. map_of xs k = Some v \<and> P v))"
proof (induction xs)
  case Nil
  then show ?case by simp
next
  case (Cons x xs)
  obtain k' v' where x: "x = (k', v')" by (cases x)
  from Cons.prems x have n: "k' \<notin> fst ` set xs" and d: "distinct (map fst xs)" by auto
  from n have "\<forall>k \<in> set (map fst xs). k \<noteq> k'" by auto
  with Cons.IH [OF d] x show ?case by auto
qed

lemma apply_patterns_keys:
  "apply_patterns ps content sd = Inr d \<Longrightarrow> fst ` set ps \<subseteq> set (map fst sd)
     \<Longrightarrow> map fst d = map fst sd"
proof (induction ps arbitrary: sd)
  case Nil
  then show ?case by simp
next
  case (Cons kp ps)
  obtain key p where kp: "kp = (key, p)" by (cases kp)
  with Cons.prems(2) have key: "key \<in> set (map fst sd)" and rest: "fst ` set ps \<subseteq> set (map fst sd)"
    by auto
  show ?case
  proof (cases "re_search True p content")
    case None
    with kp Cons.prems(1) have "apply_patterns ps content sd = Inr d" by simp
    from Cons.IH [OF this rest] show ?thesis .
  next
    case (Some m)
    with kp Cons.prems(1) obtain g where
      a: "apply_patterns ps content (AList.update key (strip g) sd) = Inr d"
      by (auto split: option.splits)
    from key have k: "map fst (AList.update key (strip g) sd) = map fst sd"
      by (simp add: update_keys)
    with rest have "fst ` set ps \<subseteq> set (map fst (AList.update key (strip g) sd))" by simp
    from Cons.IH [OF a this] k show ?thesis by simp
  qed
qed

lemma extract_fields_returns:
  "\<exists>sd. extract_fields content = Inr sd \<and> map fst sd = ''scheme_name'' # labeled_keys"
proof -
  define sd0 where "sd0 =
    (if split_sep (strip content) [CHR 0x0A] \<noteq> []
     then AList.update ''scheme_name'' (strip (split_sep (strip content) [CHR 0x0A] ! 0))
            initial_structured_data
     else initial_structured_data)"
  have ef: "extract_fields content = apply_patterns patterns content sd0"
    by (simp add: extract_fields_def Let_def sd0_def)
  have keys0: "map fst sd0 = ''scheme_name'' # labeled_keys"
    by (simp add: sd0_def update_keys initial_structured_data_def labeled_keys_def patterns_def)
  have "\<forall>(key, p) \<in> set patterns. binds 1 p"
    using binds_label_pattern by (simp add: patterns_def)
  from apply_patterns_returns [OF this] obtain sd where
    sd: "apply_patterns patterns content sd0 = Inr sd" by blast
  have "fst ` set patterns \<subseteq> set (map fst sd0)"
    unfolding keys0 by (simp add: labeled_keys_def subset_insertI)
  from apply_patterns_keys [OF sd this] keys0
  have k: "map fst sd = ''scheme_name'' # labeled_keys" by simp
  from sd ef have e: "extract_fields content = Inr sd" by simp
  show ?thesis by (intro exI [of _ sd] conjI) (fact e k)+
qed

lemma all_fields_empty_iff:
  assumes "map fst sd = ''scheme_name'' # labeled_keys"
  shows "all_fields_empty sd = (\<forall>k \<in> set labeled_keys. map_of sd k = Some [])"
proof -
  have d: "distinct (map fst sd)"
    unfolding assms by (simp add: labeled_keys_def patterns_def)
  show ?thesis
    unfolding all_fields_empty_def list_all_filter_keys [OF d, where P = "\<lambda>v. v = []" and Q = "\<lambda>key. key \<noteq> ''scheme_name'' \<and> key \<noteq> ''result_id''"] assms
    by (simp add: labeled_keys_def patterns_def)
qed

text \<open>
  Claim C2, as the code has it.  For every input text the parser returns, and the output
  has the key \<open>raw_content\<close> if and only if all seven labelled fields were extracted empty
  and the text is not the empty string; a labelled key is in the output exactly when its
  extracted value is not empty; so \<open>raw_content\<close> never stands beside a labelled field, and it
  is absent whenever some labelled field was extracted non-empty.
\<close>

theorem parse_health_scheme_raw_content:
  "\<exists>sd out. extract_fields content = Inr sd \<and> parse_health_scheme content = Inr out
     \<and> map fst sd = ''scheme_name'' # labeled_keys
     \<and> ((map_of out ''raw_content'' \<noteq> None)
          = ((\<forall>k \<in> set labeled_keys. map_of sd k = Some []) \<and> content \<noteq> []))
     \<and> (\<forall>k \<in> set labeled_keys. (map_of out k \<noteq> None) = (map_of sd k \<noteq> Some []))
     \<and> (map_of out ''raw_content'' \<noteq> None \<longrightarrow> (\<forall>k \<in> set labeled_keys. map_of out k = None))"
proof -
  from extract_fields_returns [of content] obtain sd where
    sd: "extract_fields content = Inr sd" and keys: "map fst sd = ''scheme_name'' # labeled_keys"
    by (elim exE conjE)
  define sd' where "sd' = (if all_fields_empty sd
      then AList.update ''raw_content'' content sd else sd)"
  define out where "out = filter (\<lambda>(k, v). v \<noteq> []) sd'"
  have out: "parse_health_scheme content = Inr out"
    by (simp add: parse_health_scheme_def sd finish_scheme_def Let_def out_def sd'_def)
  have d: "distinct (map fst sd)"
    unfolding keys by (simp add: labeled_keys_def patterns_def)
  have raw_new: "''raw_content'' \<notin> set (map fst sd)"
    unfolding keys by (simp add: labeled_keys_def patterns_def)
  have d': "distinct (map fst sd')"
    using d by (simp add: sd'_def distinct_update)
  have look: "\<And>k. map_of out k = (case map_of sd' k of None \<Rightarrow> None
      | Some v \<Rightarrow> if v \<noteq> [] then Some v else None)"
    unfolding out_def by (rule map_of_filter_values [OF d', where P = "\<lambda>v. v \<noteq> []"])
  have empty: "all_fields_empty sd = (\<forall>k \<in> set labeled_keys. map_of sd k = Some [])"
    by (rule all_fields_empty_iff [OF keys])
  have raw_sd: "map_of sd ''raw_content'' = None"
    using raw_new by (simp add: map_of_eq_None_iff)
  have raw: "map_of sd' ''raw_content'' = (if all_fields_empty sd then Some content else None)"
    by (simp add: sd'_def update_conv raw_sd)
  have lab: "\<And>k. k \<in> set labeled_keys \<Longrightarrow> map_of sd' k = map_of sd k"
    by (auto simp: sd'_def update_conv labeled_keys_def patterns_def)
  have lab_some: "\<And>k. k \<in> set labeled_keys \<Longrightarrow> \<exists>v. map_of sd k = Some v"
  proof -
    fix k assume k: "k \<in> set labeled_keys"
    have "k \<in> set (map fst sd)" unfolding keys using k by simp
    then have "map_of sd k \<noteq> None" by (simp add: map_of_eq_None_iff)
    then show "\<exists>v. map_of sd k = Some v" by auto
  qed
  have c1: "(map_of out ''raw_content'' \<noteq> None)
      = ((\<forall>k \<in> set labeled_keys. map_of sd k = Some []) \<and> content \<noteq> [])"
    by (simp add: look raw empty)
  have c2: "\<forall>k \<in> set labeled_keys. (map_of out k \<noteq> None) = (map_of sd k \<noteq> Some [])"
  proof
    fix k assume k: "k \<in> set labeled_keys"
    from lab_some [OF k] obtain v where "map_of sd k = Some v" by blast
    with lab [OF k] show "(map_of out k \<noteq> None) = (map_of sd k \<noteq> Some [])"
      by (simp add: look)
  qed
  have c3: "map_of out ''raw_content'' \<noteq> None \<longrightarrow> (\<forall>k \<in> set labeled_keys. map_of out k = None)"
  proof (intro impI ballI)
    fix k assume "map_of out ''raw_content'' \<noteq> None" and k: "k \<in> set labeled_keys"
    with c1 have "map_of sd k = Some []" by blast
    with c2 k show "map_of out k = None" by blast
  qed
  show ?thesis
    apply (rule exI [of _ sd])
    apply (rule exI [of _ out])
    apply (intro conjI)
         apply (fact sd)
        apply (fact out)
       apply (fact keys)
      apply (fact c1)
     apply (fact c2)
    apply (fact c3)
    done
qed

theorem parse_health_scheme_raw_content_witness:
  "parse_health_scheme (''PM Matru Vandana'' @ [CHR 0x0A] @ ''State: Maharashtra'' @ [CHR 0x0A]
       @ ''Benefits: Cash incentive'')
     = Inr [(''scheme_name'', ''PM Matru Vandana''), (''state'', ''Maharashtra''),
            (''benefits'', ''Cash incentive'')]
   \<and> parse_health_scheme ''Ask the local health worker''
     = Inr [(''scheme_name'', ''Ask the local health worker''),
            (''raw_content'', ''Ask the local health worker'')]"
proof -
  have e1: "parse_health_scheme (''PM Matru Vandana'' @ [CHR 0x0A] @ ''State: Maharashtra''
       @ [CHR 0x0A] @ ''Benefits: Cash incentive'')
     = Inr [(''scheme_name'', ''PM Matru Vandana''), (''state'', ''Maharashtra''),
            (''benefits'', ''Cash incentive'')]"
    by code_simp
  have e2: "parse_health_scheme ''Ask the local health worker''
     = Inr [(''scheme_name'', ''Ask the local health worker''),
            (''raw_content'', ''Ask the local health worker'')]"
    by code_simp
  from parse_health_scheme_raw_content [of "''Ask the local health worker''"] e1 e2
  show ?thesis by simp
qed

text \<open>
  The claim as stated fails on the empty text: all seven labelled fields are extracted
  empty, yet the output, from which line 96 drops every empty value, has no \<open>raw_content\<close>.
\<close>

theorem parse_health_scheme_empty_text:
  "extract_fields [] =
     Inr [(''scheme_name'', []), (''state'', []), (''description'', []), (''eligibility'', []),
          (''how_to_apply'', []), (''benefits'', []), (''documents_required'', []),
          (''contact_info'', [])]
   \<and> parse_health_scheme [] = Inr []"
  by code_simp

text \<open>
  A label that is found need not give a value: after \<open>State:\<close> and a single space the group
  takes the space, which \<open>strip\<close> removes, and the text is returned as \<open>raw_content\<close>.
\<close>

lemma parse_health_scheme_blank_label:
  "parse_health_scheme ''State: '' = Inr [(''scheme_name'', ''State:''), (''raw_content'', ''State: '')]"
  by code_simp

section \<open>Properties of the embedding provider\<close>

text \<open>
  Claim C9.  \<open>encode\<close> applied to the empty list of sentences returns the empty list, and
  its trace of calls is empty: neither the tokenizer nor the network is invoked.
\<close>

theorem encode_empty: "encode m [] batch_size = (Inr [], [])"
  by (simp add: encode_def)

section \<open>Properties of the diet-plan parser\<close>

subsection \<open>The completion of a concrete run\<close>

lemma answering_completes: "request_completion (answering t) query limit = Inr t"
  by (simp add: request_completion_def answering_def missing_def COLLECTION_NAME_def
      one_vector_model_def encode_def encode_loop.simps Let_def)

subsection \<open>A day that is no object\<close>

lemma get_meals_non_object: "\<not> is_obj v \<Longrightarrow> get_meals (m # ms) v = Inl AttributeError"
  by (cases v) simp_all

lemma get_meals_raises: "get_meals ms v = Inl e \<Longrightarrow> e = AttributeError"
proof (induction ms arbitrary: e)
  case Nil
  then show ?case by simp
next
  case (Cons m ms)
  then show ?case by (cases v) (auto split: sum.splits)
qed

lemma day_entry_non_object:
  assumes "map_of kvs day_key = Some v" "\<not> is_obj v"
  shows "day_entry (JObj kvs) day_key = Inl AttributeError"
proof -
  from assms(2) have "get_meals meal_keys v = Inl AttributeError"
    unfolding meal_keys_def by (rule get_meals_non_object)
  with assms(1) show ?thesis by (simp add: day_entry_def)
qed

lemma day_entry_object_raises: "day_entry (JObj kvs) day_key = Inl e \<Longrightarrow> e = AttributeError"
  by (auto simp: day_entry_def split: if_splits option.splits dest: get_meals_raises)

lemma stage1_loop_non_object:
  assumes "d \<in> set ds" "map_of kvs (''day'' @ str_nat d) = Some v" "\<not> is_obj v"
  shows "stage1_loop ds (JObj kvs) sr = Inl AttributeError"
  using assms
proof (induction ds arbitrary: sr)
  case Nil
  then show ?case by simp
next
  case (Cons a ds)
  show ?case
  proof (cases "a = d")
    case True
    with day_entry_non_object [OF Cons.prems(2,3)] show ?thesis by (simp add: Let_def)
  next
    case False
    with Cons.prems have "d \<in> set ds" by auto
    from Cons.IH [OF this Cons.prems(2,3)] show ?thesis
      by (auto simp: Let_def split: sum.splits dest: day_entry_object_raises)
  qed
qed

lemma day_keys_conv: "day_key \<in> set day_keys \<Longrightarrow> \<exists>d \<in> set [1..<8]. day_key = ''day'' @ str_nat d"
  by (auto simp: day_keys_def)

text \<open>
  Claim C10.  When the completion has been received and the extracted text decodes to an
  object in which some key \<open>dayN\<close> (\<open>N\<close> from 1 to 7) is present with a value that is
  no object, \<open>get_nutrition_recommendation\<close> raises: the \<open>AttributeError\<close> of
  \<open>day_data.get\<close> is not a \<open>JSONDecodeError\<close>, so the fallback of stages 2 and 3 does not
  run and no defaulted plan is returned.
\<close>

theorem stage1_non_object_day_raises:
  assumes "request_completion c query limit = Inr completion_text"
    and "json_loads (extract_json_text completion_text) = Inr (JObj kvs)"
    and "day_key \<in> set day_keys"
    and "map_of kvs day_key = Some v"
    and "\<not> is_obj v"
  shows "get_nutrition_recommendation c query limit = Inl AttributeError"
proof -
  from day_keys_conv [OF assms(3)] obtain d where
    d: "d \<in> set [1..<8]" "day_key = ''day'' @ str_nat d" by (elim bexE)
  from assms(4) d(2) have "map_of kvs (''day'' @ str_nat d) = Some v" by simp
  from stage1_loop_non_object [OF d(1) this assms(5)]
  have "stage1 (JObj kvs) = Inl AttributeError" by (simp add: stage1_def)
  with assms(1,2) show ?thesis
    by (simp add: get_nutrition_recommendation_def parse_diet_plan_def Let_def)
qed

theorem stage1_non_object_day_raises_witness:
  \<open>get_nutrition_recommendation (answering ''{"day3": "rice"}'') ''I am from Kerala'' 3
     = Inl AttributeError\<close>
proof -
  have h2: \<open>json_loads (extract_json_text ''{"day3": "rice"}'') = Inr (JObj [(''day3'', JStr ''rice'')])\<close>
    by code_simp
  have h3: "''day3'' \<in> set day_keys" by code_simp
  have h4: "map_of [(''day3'', JStr ''rice'')] ''day3'' = Some (JStr ''rice'')" by simp
  have h5: "\<not> is_obj (JStr ''rice'')" by simp
  from stage1_non_object_day_raises [OF answering_completes h2 h3 h4 h5] show ?thesis .
qed

subsection \<open>The fallback always returns\<close>

lemma apply_meal_patterns_returns:
  "\<forall>(key, p) \<in> set ps. binds 1 p \<Longrightarrow> \<exists>d. apply_meal_patterns ps day_content day_data = Inr d"
proof (induction ps arbitrary: day_data)
  case Nil
  then show ?case by simp
next
  case (Cons kp ps)
  obtain key p where kp: "kp = (key, p)" by (cases kp)
  with Cons.prems have b: "binds 1 p" and rest: "\<forall>(key, p) \<in> set ps. binds 1 p" by auto
  show ?case
  proof (cases "re_search True p day_content")
    case None
    with kp Cons.IH [OF rest] show ?thesis by simp
  next
    case (Some m)
    with re_search_group [OF Some b] obtain g where "group m 1 = Some g" by auto
    with kp Some Cons.IH [OF rest] show ?thesis by simp
  qed
qed

lemma meal_patterns_bind: "\<forall>(key, p) \<in> set meal_patterns. binds 1 p"
  using binds_meal_pattern by (simp add: meal_patterns_def)

lemma add_days_returns: "\<exists>sr'. add_days day_matches sr = Inr sr'"
proof (induction day_matches arbitrary: sr)
  case Nil
  then show ?case by simp
next
  case (Cons m ms)
  obtain day_num day_content where m: "m = (day_num, day_content)" by (cases m)
  from apply_meal_patterns_returns [OF meal_patterns_bind] obtain day_data where
    "apply_meal_patterns meal_patterns day_content default_day = Inr day_data" by blast
  with m Cons.IH show ?case by simp
qed

lemma try_day_patterns_returns: "\<exists>sr'. try_day_patterns ps t sr = Inr sr'"
proof (induction ps arbitrary: sr)
  case Nil
  then show ?case by simp
next
  case (Cons p ps)
  show ?case
  proof (cases "re_findall2 True p t = []")
    case True
    with Cons.IH show ?thesis by simp
  next
    case False
    from add_days_returns obtain sr1 where "add_days (re_findall2 True p t) sr = Inr sr1" by blast
    with False Cons.IH [of sr1] show ?thesis by (simp add: Let_def)
  qed
qed

lemma fallback_returns: "\<exists>sr. fallback t = Inr sr"
proof -
  from try_day_patterns_returns obtain sr where "try_day_patterns day_patterns t [] = Inr sr"
    by blast
  then show ?thesis by (simp add: fallback_def)
qed

text \<open>
  Claim C3.  When the completion has been received: if the strict decode of the extracted
  text fails (a \<open>JSONDecodeError\<close>), \<open>get_nutrition_recommendation\<close> returns, and what it
  returns has the key \<open>note\<close> with the value "The diet plan could not be parsed as JSON
  and was manually structured."; if the strict decode succeeds, whatever the function
  returns has no \<open>note\<close>.
\<close>

theorem decode_failure_is_recovered:
  assumes "request_completion c query limit = Inr completion_text"
  shows "(json_loads (extract_json_text completion_text) = Inl JSONDecodeError \<longrightarrow>
            (\<exists>r. get_nutrition_recommendation c query limit = Inr r
               \<and> note_text r
                   = Some ''The diet plan could not be parsed as JSON and was manually structured.''))
       \<and> (\<forall>j r. json_loads (extract_json_text completion_text) = Inr j \<longrightarrow>
             get_nutrition_recommendation c query limit = Inr r \<longrightarrow> note_text r = None)"
proof (intro conjI impI allI)
  assume "json_loads (extract_json_text completion_text) = Inl JSONDecodeError"
  moreover from fallback_returns obtain sr where
    "fallback (extract_json_text completion_text) = Inr sr" by blast
  ultimately show "\<exists>r. get_nutrition_recommendation c query limit = Inr r
      \<and> note_text r = Some ''The diet plan could not be parsed as JSON and was manually structured.''"
    using assms
    by (simp add: get_nutrition_recommendation_def parse_diet_plan_def Let_def manual_note_def)
next
  fix j r
  assume "json_loads (extract_json_text completion_text) = Inr j"
    and "get_nutrition_recommendation c query limit = Inr r"
  with assms show "note_text r = None"
    by (auto simp: get_nutrition_recommendation_def parse_diet_plan_def Let_def
        split: sum.splits)
qed

theorem decode_failure_is_recovered_witness:
  \<open>get_nutrition_recommendation (answering ''Day 1: Breakfast: Poha. Lunch: Dal rice.'')
       ''I am from Kerala'' 3
     = Inr \<lparr>diet_plan =
              [(''day1'',
                [(''breakfast'', JStr ''Poha.''), (''morning_snack'', JStr ''Not specified''),
                 (''lunch'', JStr ''Dal rice.''), (''evening_snack'', JStr ''Not specified''),
                 (''dinner'', JStr ''Not specified'')])],
            region = ''kerala'',
            note_text = Some ''The diet plan could not be parsed as JSON and was manually structured.''\<rparr>
   \<and> json_loads (extract_json_text ''Day 1: Breakfast: Poha. Lunch: Dal rice.'') = Inl JSONDecodeError
   \<and> json_loads (extract_json_text ''{"day1": {"breakfast": "Idli"}}'')
       = Inr (JObj [(''day1'', JObj [(''breakfast'', JStr ''Idli'')])])
   \<and> map_option note_text
        (case get_nutrition_recommendation (answering ''{"day1": {"breakfast": "Idli"}}'')
                ''I am from Kerala'' 3 of Inl e \<Rightarrow> None | Inr r \<Rightarrow> Some r) = Some None\<close>
proof -
  have a1: \<open>get_nutrition_recommendation (answering ''Day 1: Breakfast: Poha. Lunch: Dal rice.'')
       ''I am from Kerala'' 3
     = Inr \<lparr>diet_plan =
              [(''day1'',
                [(''breakfast'', JStr ''Poha.''), (''morning_snack'', JStr ''Not specified''),
                 (''lunch'', JStr ''Dal rice.''), (''evening_snack'', JStr ''Not specified''),
                 (''dinner'', JStr ''Not specified'')])],
            region = ''kerala'',
            note_text = Some ''The diet plan could not be parsed as JSON and was manually structured.''\<rparr>\<close>
    by code_simp
  have a2: \<open>json_loads (extract_json_text ''Day 1: Breakfast: Poha. Lunch: Dal rice.'') = Inl JSONDecodeError\<close>
    by code_simp
  have a3: \<open>json_loads (extract_json_text ''{"day1": {"breakfast": "Idli"}}'')
       = Inr (JObj [(''day1'', JObj [(''breakfast'', JStr ''Idli'')])])\<close>
    by code_simp
  have a4: \<open>map_option note_text
        (case get_nutrition_recommendation (answering ''{"day1": {"breakfast": "Idli"}}'')
                ''I am from Kerala'' 3 of Inl e \<Rightarrow> None | Inr r \<Rightarrow> Some r) = Some None\<close>
    by code_simp
  note t1 = decode_failure_is_recovered [OF answering_completes
      [of "''Day 1: Breakfast: Poha. Lunch: Dal rice.''" "''I am from Kerala''" 3]]
  note t2 = decode_failure_is_recovered [OF answering_completes
      [of \<open>''{"day1": {"breakfast": "Idli"}}''\<close> "''I am from Kerala''" 3]]
  from t1 t2 a1 a2 a3 a4 show ?thesis by simp
qed

subsection \<open>The shape of the plan\<close>

lemma update_fresh: "k \<notin> fst ` set al \<Longrightarrow> AList.update k v al = al @ [(k, v)]"
  by (induction al) auto

lemma set_update_subset: "set (AList.update k v al) \<subseteq> insert (k, v) (set al)"
  by (induction al) auto

lemma fold_update_fresh:
  "distinct (map f ds) \<Longrightarrow> set (map f ds) \<inter> fst ` set sr = {} \<Longrightarrow>
     fold (\<lambda>d. AList.update (f d) (g d)) ds sr = sr @ map (\<lambda>d. (f d, g d)) ds"
proof (induction ds arbitrary: sr)
  case Nil
  then show ?case by simp
next
  case (Cons d ds)
  from Cons.prems have fresh: "f d \<notin> fst ` set sr" by auto
  then have u: "AList.update (f d) (g d) sr = sr @ [(f d, g d)]" by (rule update_fresh)
  from Cons.prems have "distinct (map f ds)" and "set (map f ds) \<inter> fst ` set (sr @ [(f d, g d)]) = {}"
    by auto
  from Cons.IH [OF this] u show ?case by simp
qed

lemma get_meals_object:
  "get_meals ms (JObj kvs)
     = Inr (map (\<lambda>m. (m, case map_of kvs m of None \<Rightarrow> not_specified | Some v \<Rightarrow> v)) ms)"
  by (induction ms) auto

lemma get_meals_keys: "get_meals ms v = Inr d \<Longrightarrow> map fst d = ms"
proof (induction ms arbitrary: d)
  case Nil
  then show ?case by simp
next
  case (Cons m ms)
  then show ?case by (auto split: sum.splits)
qed

lemma default_day_keys: "map fst default_day = meal_keys"
  by (simp add: default_day_def meal_keys_def)

lemma day_entry_keys: "day_entry j day_key = Inr d \<Longrightarrow> map fst d = meal_keys"
  by (auto simp: day_entry_def default_day_keys split: sum.splits if_splits dest: get_meals_keys)

lemma day_entry_absent: "map_of kvs day_key = None \<Longrightarrow> day_entry (JObj kvs) day_key = Inr default_day"
  by (simp add: day_entry_def)

lemma day_entry_present:
  "map_of kvs day_key = Some (JObj ms) \<Longrightarrow>
     day_entry (JObj kvs) day_key
       = Inr (map (\<lambda>m. (m, case map_of ms m of None \<Rightarrow> not_specified | Some v \<Rightarrow> v)) meal_keys)"
  by (simp add: day_entry_def get_meals_object)

lemma stage1_loop_fold:
  "stage1_loop ds j sr = Inr sr' \<Longrightarrow>
     (\<forall>d \<in> set ds. day_entry j (''day'' @ str_nat d) = Inr (g d)) \<Longrightarrow>
     sr' = fold (\<lambda>d. AList.update (''day'' @ str_nat d) (g d)) ds sr"
proof (induction ds arbitrary: sr)
  case Nil
  then show ?case by simp
next
  case (Cons d ds)
  from Cons.prems(2) have e: "day_entry j (''day'' @ str_nat d) = Inr (g d)" by simp
  with Cons.prems(1) have "stage1_loop ds j (AList.update (''day'' @ str_nat d) (g d) sr) = Inr sr'"
    by (simp add: Let_def)
  from Cons.IH [OF this] Cons.prems(2) show ?case by simp
qed

lemma stage1_loop_entries:
  "stage1_loop ds j sr = Inr sr' \<Longrightarrow> d \<in> set ds \<Longrightarrow> \<exists>e. day_entry j (''day'' @ str_nat d) = Inr e"
proof (induction ds arbitrary: sr)
  case Nil
  then show ?case by simp
next
  case (Cons a ds)
  then show ?case by (auto simp: Let_def split: sum.splits)
qed

lemma day_keys_distinct: "distinct (map (\<lambda>d. ''day'' @ str_nat d) [1..<8])"
  by code_simp

lemma stage1_result:
  assumes "stage1 j = Inr sr"
  shows "\<exists>g. (\<forall>d \<in> set [1..<8]. day_entry j (''day'' @ str_nat d) = Inr (g d))
     \<and> sr = map (\<lambda>d. (''day'' @ str_nat d, g d)) [1..<8]"
proof -
  define g where "g d = (case day_entry j (''day'' @ str_nat d) of Inr e \<Rightarrow> e | Inl x \<Rightarrow> [])" for d
  from assms have l: "stage1_loop [1..<8] j [] = Inr sr" by (simp add: stage1_def)
  have en: "\<forall>d \<in> set [1..<8]. day_entry j (''day'' @ str_nat d) = Inr (g d)"
  proof
    fix d assume "d \<in> set [1..<8]"
    from stage1_loop_entries [OF l this] show "day_entry j (''day'' @ str_nat d) = Inr (g d)"
      by (auto simp: g_def)
  qed
  from stage1_loop_fold [OF l en]
  have "sr = fold (\<lambda>d. AList.update (''day'' @ str_nat d) (g d)) [1..<8] []" .
  also have "\<dots> = [] @ map (\<lambda>d. (''day'' @ str_nat d, g d)) [1..<8]"
    by (rule fold_update_fresh [OF day_keys_distinct]) simp
  finally have "sr = map (\<lambda>d. (''day'' @ str_nat d, g d)) [1..<8]" by simp
  with en show ?thesis by (intro exI [of _ g] conjI)
qed

lemma list_all_update: "list_all P (map snd al) \<Longrightarrow> P v \<Longrightarrow> list_all P (map snd (AList.update k v al))"
  by (induction al) auto

lemma apply_meal_patterns_inv:
  "apply_meal_patterns ps c dd = Inr d' \<Longrightarrow> fst ` set ps \<subseteq> set (map fst dd) \<Longrightarrow>
     map fst d' = map fst dd \<and> (list_all is_str (map snd dd) \<longrightarrow> list_all is_str (map snd d'))"
proof (induction ps arbitrary: dd)
  case Nil
  then show ?case by simp
next
  case (Cons kp ps)
  obtain key p where kp: "kp = (key, p)" by (cases kp)
  with Cons.prems(2) have key: "key \<in> set (map fst dd)" and rest: "fst ` set ps \<subseteq> set (map fst dd)"
    by auto
  show ?case
  proof (cases "re_search True p c")
    case None
    with kp Cons.prems(1) have "apply_meal_patterns ps c dd = Inr d'" by simp
    from Cons.IH [OF this rest] show ?thesis .
  next
    case (Some m)
    with kp Cons.prems(1) obtain g where
      a: "apply_meal_patterns ps c (AList.update key (JStr (strip g)) dd) = Inr d'"
      by (auto split: option.splits)
    let ?dd = "AList.update key (JStr (strip g)) dd"
    from key have k: "map fst ?dd = map fst dd" by (simp add: update_keys)
    with rest have "fst ` set ps \<subseteq> set (map fst ?dd)" by simp
    from Cons.IH [OF a this] have
      1: "map fst d' = map fst ?dd"
      and 2: "list_all is_str (map snd ?dd) \<longrightarrow> list_all is_str (map snd d')" by auto
    have "list_all is_str (map snd dd) \<longrightarrow> list_all is_str (map snd ?dd)"
      by (simp add: list_all_update)
    with 1 2 k show ?thesis by auto
  qed
qed

lemma default_day_ok: "day_ok default_day"
  by (simp add: day_ok_def default_day_def meal_keys_def not_specified_def)

lemma add_days_inv:
  "add_days ms sr = Inr sr' \<Longrightarrow> list_all day_ok (map snd sr) \<Longrightarrow> list_all day_ok (map snd sr')"
proof (induction ms arbitrary: sr)
  case Nil
  then show ?case by simp
next
  case (Cons m ms)
  obtain day_num day_content where m: "m = (day_num, day_content)" by (cases m)
  with Cons.prems(1) obtain day_data where
    d: "apply_meal_patterns meal_patterns day_content default_day = Inr day_data"
    and a: "add_days ms (AList.update (''day'' @ day_num) day_data sr) = Inr sr'"
    by (auto split: sum.splits)
  have "fst ` set meal_patterns \<subseteq> set (map fst default_day)"
    by (simp add: meal_patterns_def default_day_def)
  from apply_meal_patterns_inv [OF d this] default_day_ok have "day_ok day_data"
    by (simp add: day_ok_def)
  with Cons.prems(2)
  have "list_all day_ok (map snd (AList.update (''day'' @ day_num) day_data sr))"
    by (rule list_all_update)
  from Cons.IH [OF a this] show ?case .
qed

lemma try_day_patterns_inv:
  "try_day_patterns ps t sr = Inr sr' \<Longrightarrow> list_all day_ok (map snd sr)
     \<Longrightarrow> list_all day_ok (map snd sr')"
proof (induction ps arbitrary: sr)
  case Nil
  then show ?case by simp
next
  case (Cons p ps)
  show ?case
  proof (cases "re_findall2 True p t = []")
    case True
    with Cons show ?thesis by simp
  next
    case False
    with Cons.prems(1) obtain sr1 where
      1: "add_days (re_findall2 True p t) sr = Inr sr1" and 2: "try_day_patterns ps t sr1 = Inr sr'"
      by (auto simp: Let_def split: sum.splits)
    from Cons.IH [OF 2 add_days_inv [OF 1 Cons.prems(2)]] show ?thesis .
  qed
qed

lemma try_day_patterns_no_match:
  "\<forall>p \<in> set ps. re_findall2 True p t = [] \<Longrightarrow> try_day_patterns ps t sr = Inr sr"
  by (induction ps) auto

lemma all_default_eq: "all_default = map (\<lambda>day_key. (day_key, default_day)) day_keys"
  by code_simp

lemma all_default_ok: "list_all day_ok (map snd all_default)"
  using default_day_ok by (simp add: all_default_eq list_all_iff)

lemma fallback_inv: "fallback t = Inr sr \<Longrightarrow> list_all day_ok (map snd sr)"
proof -
  assume a: "fallback t = Inr sr"
  then obtain sr0 where t: "try_day_patterns day_patterns t [] = Inr sr0"
    and sr: "sr = (if sr0 = [] then all_default else sr0)"
    by (auto simp: fallback_def split: sum.splits)
  from try_day_patterns_inv [OF t] have "list_all day_ok (map snd sr0)" by simp
  with sr all_default_ok show ?thesis by simp
qed

lemma fallback_no_match:
  "\<forall>p \<in> set day_patterns. re_findall2 True p t = [] \<Longrightarrow> fallback t = Inr all_default"
  by (simp add: fallback_def try_day_patterns_no_match)

lemma day_keys_eq: "day_keys = map (\<lambda>d. ''day'' @ str_nat d) [1..<8]"
  by (simp add: day_keys_def)

text \<open>
  Claim C1, as the code has it.  For every response text and region on which the parser
  returns: every day entry of \<open>diet_plan\<close> holds exactly the five meal keys.  When the
  strict decode succeeded, the days are exactly \<open>day1\<close> to \<open>day7\<close>, and under a decoded
  object a day that is absent holds five times "Not specified", a day that is an object
  holds for each meal the decoded value under that meal, or "Not specified" where the
  meal is absent (the value is passed on as it is, a string or not).  When the decode
  failed, every meal of every entry is a string, and if no day pattern matched, the plan
  is the seven default days.  (Which days the plan holds when a day pattern matched is
  left open here.)
\<close>

theorem parse_diet_plan_shape:
  assumes "parse_diet_plan loads completion_text region_name = Inr r"
  shows "(\<forall>(day_key, meals) \<in> set (diet_plan r). map fst meals = meal_keys)
    \<and> (\<forall>j. loads (extract_json_text completion_text) = Inr j \<longrightarrow>
          map fst (diet_plan r) = day_keys
          \<and> (\<forall>kvs. j = JObj kvs \<longrightarrow>
               (\<forall>day_key \<in> set day_keys.
                  (map_of kvs day_key = None \<longrightarrow> map_of (diet_plan r) day_key = Some default_day)
                  \<and> (\<forall>ms. map_of kvs day_key = Some (JObj ms) \<longrightarrow>
                        map_of (diet_plan r) day_key
                          = Some (map (\<lambda>m. (m, case map_of ms m of
                                                    None \<Rightarrow> not_specified | Some v \<Rightarrow> v))
                                    meal_keys)))))
    \<and> (loads (extract_json_text completion_text) = Inl JSONDecodeError \<longrightarrow>
          (\<forall>(day_key, meals) \<in> set (diet_plan r). list_all is_str (map snd meals))
          \<and> ((\<forall>p \<in> set day_patterns.
                 re_findall2 True p (extract_json_text completion_text) = []) \<longrightarrow>
               diet_plan r = map (\<lambda>day_key. (day_key, default_day)) day_keys))"
proof -
  let ?t = "extract_json_text completion_text"
  have stage1_case: "map fst (diet_plan r) = day_keys
      \<and> (\<forall>(day_key, meals) \<in> set (diet_plan r). map fst meals = meal_keys)
      \<and> (\<forall>kvs. j = JObj kvs \<longrightarrow>
               (\<forall>day_key \<in> set day_keys.
                  (map_of kvs day_key = None \<longrightarrow> map_of (diet_plan r) day_key = Some default_day)
                  \<and> (\<forall>ms. map_of kvs day_key = Some (JObj ms) \<longrightarrow>
                        map_of (diet_plan r) day_key
                          = Some (map (\<lambda>m. (m, case map_of ms m of
                                                    None \<Rightarrow> not_specified | Some v \<Rightarrow> v))
                                    meal_keys))))"
    if j: "loads ?t = Inr j" for j
  proof -
    from assms j obtain sr where sr: "stage1 j = Inr sr" and r: "diet_plan r = sr"
      by (auto simp: parse_diet_plan_def Let_def split: sum.splits)
    from stage1_result [OF sr] obtain g where
      g: "\<forall>d \<in> set [1..<8]. day_entry j (''day'' @ str_nat d) = Inr (g d)"
      and m: "sr = map (\<lambda>d. (''day'' @ str_nat d, g d)) [1..<8]" by (elim exE conjE)
    have keys: "map fst sr = day_keys"
      unfolding m day_keys_eq by (simp add: comp_def)
    have meals: "\<forall>(day_key, meals) \<in> set sr. map fst meals = meal_keys"
      unfolding m using g by (auto dest: day_entry_keys)
    have look: "map_of sr (''day'' @ str_nat d) = Some (g d)" if "d \<in> set [1..<8]" for d
    proof (rule map_of_is_SomeI)
      show "distinct (map fst sr)" unfolding m using day_keys_distinct by (simp add: comp_def)
      show "(''day'' @ str_nat d, g d) \<in> set sr" unfolding m using that by auto
    qed
    have obj: "\<forall>day_key \<in> set day_keys.
                  (map_of kvs day_key = None \<longrightarrow> map_of sr day_key = Some default_day)
                  \<and> (\<forall>ms. map_of kvs day_key = Some (JObj ms) \<longrightarrow>
                        map_of sr day_key
                          = Some (map (\<lambda>m. (m, case map_of ms m of
                                                    None \<Rightarrow> not_specified | Some v \<Rightarrow> v))
                                    meal_keys))" if "j = JObj kvs" for kvs
    proof
      fix day_key assume "day_key \<in> set day_keys"
      then obtain d where d: "d \<in> set [1..<8]" and k: "day_key = ''day'' @ str_nat d"
        unfolding day_keys_eq by auto
      from g d have e: "day_entry j day_key = Inr (g d)" unfolding k by blast
      from look [OF d] have l: "map_of sr day_key = Some (g d)" unfolding k .
      show "(map_of kvs day_key = None \<longrightarrow> map_of sr day_key = Some default_day)
          \<and> (\<forall>ms. map_of kvs day_key = Some (JObj ms) \<longrightarrow>
                map_of sr day_key
                  = Some (map (\<lambda>m. (m, case map_of ms m of
                                            None \<Rightarrow> not_specified | Some v \<Rightarrow> v))
                            meal_keys))"
        using e l that by (auto simp: day_entry_absent day_entry_present)
    qed
    from keys meals obj r show ?thesis by simp
  qed
  have fallback_case: "(\<forall>(day_key, meals) \<in> set (diet_plan r).
          map fst meals = meal_keys \<and> list_all is_str (map snd meals))
      \<and> ((\<forall>p \<in> set day_patterns. re_findall2 True p ?t = []) \<longrightarrow>
               diet_plan r = map (\<lambda>day_key. (day_key, default_day)) day_keys)"
    if f: "loads ?t = Inl JSONDecodeError"
  proof -
    from assms f obtain sr where sr: "fallback ?t = Inr sr" and r: "diet_plan r = sr"
      by (auto simp: parse_diet_plan_def Let_def split: sum.splits)
    from fallback_inv [OF sr] have "\<forall>(day_key, meals) \<in> set sr.
          map fst meals = meal_keys \<and> list_all is_str (map snd meals)"
      by (fastforce simp: list_all_iff day_ok_def)
    moreover have "(\<forall>p \<in> set day_patterns. re_findall2 True p ?t = []) \<longrightarrow>
               sr = map (\<lambda>day_key. (day_key, default_day)) day_keys"
      using sr fallback_no_match [of ?t] by (auto simp: all_default_eq)
    ultimately show ?thesis using r by simp
  qed
  from assms have cases: "(\<exists>j. loads ?t = Inr j) \<or> loads ?t = Inl JSONDecodeError"
    by (auto simp: parse_diet_plan_def Let_def split: sum.splits if_splits)
  show ?thesis
  proof (intro conjI allI impI)
    show "\<forall>(day_key, meals) \<in> set (diet_plan r). map fst meals = meal_keys"
      using cases stage1_case fallback_case by fastforce
  next
    fix j assume "loads ?t = Inr j"
    from stage1_case [OF this] show "map fst (diet_plan r) = day_keys" by simp
  next
    fix j kvs assume j: "loads ?t = Inr j" and k: "j = JObj kvs"
    from stage1_case [OF j] k show "\<forall>day_key \<in> set day_keys.
                  (map_of kvs day_key = None \<longrightarrow> map_of (diet_plan r) day_key = Some default_day)
                  \<and> (\<forall>ms. map_of kvs day_key = Some (JObj ms) \<longrightarrow>
                        map_of (diet_plan r) day_key
                          = Some (map (\<lambda>m. (m, case map_of ms m of
                                                    None \<Rightarrow> not_specified | Some v \<Rightarrow> v))
                                    meal_keys))" by simp
  next
    assume "loads ?t = Inl JSONDecodeError"
    from fallback_case [OF this]
    show "\<forall>(day_key, meals) \<in> set (diet_plan r). list_all is_str (map snd meals)" by auto
  next
    assume f: "loads ?t = Inl JSONDecodeError"
      and "\<forall>p \<in> set day_patterns. re_findall2 True p ?t = []"
    with fallback_case [OF f]
    show "diet_plan r = map (\<lambda>day_key. (day_key, default_day)) day_keys" by simp
  qed
qed

theorem parse_diet_plan_shape_witness:
  \<open>parse_diet_plan json_loads [] ''unknown''
     = Inr \<lparr>diet_plan = map (\<lambda>day_key. (day_key, default_day)) day_keys, region = ''unknown'',
            note_text = Some manual_note\<rparr>
   \<and> parse_diet_plan json_loads
         (fence @ ''json'' @ [CHR 0x0A] @ ''{"day1":{"breakfast":"Idli"}}'' @ [CHR 0x0A] @ fence)
         ''unknown''
     = Inr \<lparr>diet_plan =
              (''day1'', [(''breakfast'', JStr ''Idli''), (''morning_snack'', not_specified),
                          (''lunch'', not_specified), (''evening_snack'', not_specified),
                          (''dinner'', not_specified)])
              # map (\<lambda>day_key. (day_key, default_day)) (tl day_keys),
            region = ''unknown'', note_text = None\<rparr>\<close>
proof -
  have a1: \<open>parse_diet_plan json_loads [] ''unknown''
     = Inr \<lparr>diet_plan = map (\<lambda>day_key. (day_key, default_day)) day_keys, region = ''unknown'',
            note_text = Some manual_note\<rparr>\<close>
    by code_simp
  have a2: \<open>parse_diet_plan json_loads
         (fence @ ''json'' @ [CHR 0x0A] @ ''{"day1":{"breakfast":"Idli"}}'' @ [CHR 0x0A] @ fence)
         ''unknown''
     = Inr \<lparr>diet_plan =
              (''day1'', [(''breakfast'', JStr ''Idli''), (''morning_snack'', not_specified),
                          (''lunch'', not_specified), (''evening_snack'', not_specified),
                          (''dinner'', not_specified)])
              # map (\<lambda>day_key. (day_key, default_day)) (tl day_keys),
            region = ''unknown'', note_text = None\<rparr>\<close>
    by code_simp
  from parse_diet_plan_shape [OF a1] parse_diet_plan_shape [OF a2] a1 a2 show ?thesis by simp
qed

text \<open>
  The claim as stated fails.  On a response in prose, the fallback writes the days it
  finds and no others: the plan has the one key \<open>day1\<close>.  On a response in JSON, a meal that
  is \<open>null\<close> is passed on as \<open>None\<close>.
\<close>

theorem parse_diet_plan_incomplete:
  \<open>parse_diet_plan json_loads ''Day 1: Breakfast: Poha. Lunch: Dal rice.'' ''unknown''
     = Inr \<lparr>diet_plan =
              [(''day1'', [(''breakfast'', JStr ''Poha.''), (''morning_snack'', not_specified),
                           (''lunch'', JStr ''Dal rice.''), (''evening_snack'', not_specified),
                           (''dinner'', not_specified)])],
            region = ''unknown'', note_text = Some manual_note\<rparr>
   \<and> (case parse_diet_plan json_loads ''{"day3": {"lunch": null}}'' ''unknown'' of
         Inl e \<Rightarrow> None
       | Inr r \<Rightarrow> map_of (diet_plan r) ''day3'')
     = Some [(''breakfast'', not_specified), (''morning_snack'', not_specified),
             (''lunch'', JNull), (''evening_snack'', not_specified),
             (''dinner'', not_specified)]\<close>
  by code_simp

subsection \<open>The three day patterns\<close>

lemma add_days_append:
  "add_days (xs @ ys) sr = (case add_days xs sr of Inl e \<Rightarrow> Inl e | Inr sr1 \<Rightarrow> add_days ys sr1)"
proof (induction xs arbitrary: sr)
  case Nil
  then show ?case by simp
next
  case (Cons x xs)
  obtain n c where x: "x = (n, c)" by (cases x)
  with Cons.IH show ?case by (simp split: sum.splits)
qed

lemma try_day_patterns_concat:
  "try_day_patterns ps t sr = add_days (concat (map (\<lambda>p. re_findall2 True p t) ps)) sr"
proof (induction ps arbitrary: sr)
  case Nil
  then show ?case by simp
next
  case (Cons p ps)
  show ?case
  proof (cases "re_findall2 True p t = []")
    case True
    with Cons.IH show ?thesis by simp
  next
    case False
    with Cons.IH show ?thesis
      by (simp add: Let_def add_days_append split: sum.splits)
  qed
qed

lemma add_days_keys:
  "add_days ms sr = Inr sr' \<Longrightarrow>
     fst ` set sr' = fst ` set sr \<union> (\<lambda>(day_num, day_content). ''day'' @ day_num) ` set ms"
proof (induction ms arbitrary: sr)
  case Nil
  then show ?case by simp
next
  case (Cons m ms)
  obtain n c where m: "m = (n, c)" by (cases m)
  with Cons.prems obtain dd where
    a: "add_days ms (AList.update (''day'' @ n) dd sr) = Inr sr'"
    by (auto split: sum.splits)
  from Cons.IH [OF a] m show ?case by (simp add: dom_update)
qed

text \<open>
  Claim C5, as the code has it.  In the fallback the three day patterns are tried in order
  and none of them ends the loop: the fallback returns, and the structured output is what
  writing the day blocks of the first pattern, then those of the second, then those of the
  third gives (a block whose day key is already there replaces the entry).  So every day
  that any of the three patterns matches has its key in the output.
\<close>

theorem fallback_uses_every_variant:
  "\<exists>sr. try_day_patterns day_patterns t [] = Inr sr
     \<and> add_days (re_findall2 True (day_patterns ! 0) t @ re_findall2 True (day_patterns ! 1) t
                  @ re_findall2 True (day_patterns ! 2) t) [] = Inr sr
     \<and> (\<forall>p \<in> set day_patterns. \<forall>(day_num, day_content) \<in> set (re_findall2 True p t).
           map_of sr (''day'' @ day_num) \<noteq> None)"
proof -
  from try_day_patterns_returns obtain sr where sr: "try_day_patterns day_patterns t [] = Inr sr"
    by blast
  have c: "concat (map (\<lambda>p. re_findall2 True p t) day_patterns)
      = re_findall2 True (day_patterns ! 0) t @ re_findall2 True (day_patterns ! 1) t
                  @ re_findall2 True (day_patterns ! 2) t"
    by (simp add: day_patterns_def)
  from sr have a: "add_days (concat (map (\<lambda>p. re_findall2 True p t) day_patterns)) [] = Inr sr"
    by (simp add: try_day_patterns_concat)
  have k: "\<forall>p \<in> set day_patterns. \<forall>(day_num, day_content) \<in> set (re_findall2 True p t).
           map_of sr (''day'' @ day_num) \<noteq> None"
  proof (intro ballI)
    fix p m assume p: "p \<in> set day_patterns" and m: "m \<in> set (re_findall2 True p t)"
    obtain n c where nc: "m = (n, c)" by (cases m)
    from p m have "m \<in> set (concat (map (\<lambda>p. re_findall2 True p t) day_patterns))" by auto
    with add_days_keys [OF a] nc have "''day'' @ n \<in> fst ` set sr" by force
    then have "map_of sr (''day'' @ n) \<noteq> None" by (simp add: map_of_eq_None_iff)
    with nc show "case m of (day_num, day_content) \<Rightarrow> map_of sr (''day'' @ day_num) \<noteq> None"
      by simp
  qed
  from a have a': "add_days (re_findall2 True (day_patterns ! 0) t @ re_findall2 True (day_patterns ! 1) t
                  @ re_findall2 True (day_patterns ! 2) t) [] = Inr sr"
    unfolding c .
  show ?thesis
    apply (rule exI [of _ sr])
    apply (intro conjI)
      apply (fact sr)
     apply (fact a')
    apply (fact k)
    done
qed

theorem fallback_uses_every_variant_witness:
  "try_day_patterns day_patterns ''Day 1: lunch: a day1: lunch: b'' []
     = Inr [(''day1'', [(''breakfast'', not_specified), (''morning_snack'', not_specified),
                        (''lunch'', JStr ''a day1: lunch: b''), (''evening_snack'', not_specified),
                        (''dinner'', not_specified)])]
   \<and> re_findall2 True (day_patterns ! 0) ''Day 1: lunch: a day1: lunch: b''
     = [(''1'', ''lunch: a day1: lunch: b'')]
   \<and> re_findall2 True (day_patterns ! 1) ''Day 1: lunch: a day1: lunch: b''
     = [(''1'', ''lunch: b'')]
   \<and> re_findall2 True (day_patterns ! 2) ''Day 1: lunch: a day1: lunch: b''
     = [(''1'', ''lunch: a day1: lunch: b'')]"
proof -
  have e: "try_day_patterns day_patterns ''Day 1: lunch: a day1: lunch: b'' []
     = Inr [(''day1'', [(''breakfast'', not_specified), (''morning_snack'', not_specified),
                        (''lunch'', JStr ''a day1: lunch: b''), (''evening_snack'', not_specified),
                        (''dinner'', not_specified)])]"
    by code_simp
  have m0: "re_findall2 True (day_patterns ! 0) ''Day 1: lunch: a day1: lunch: b''
     = [(''1'', ''lunch: a day1: lunch: b'')]"
    by code_simp
  have m1: "re_findall2 True (day_patterns ! 1) ''Day 1: lunch: a day1: lunch: b''
     = [(''1'', ''lunch: b'')]"
    by code_simp
  have m2: "re_findall2 True (day_patterns ! 2) ''Day 1: lunch: a day1: lunch: b''
     = [(''1'', ''lunch: a day1: lunch: b'')]"
    by code_simp
  from fallback_uses_every_variant [of "''Day 1: lunch: a day1: lunch: b''"] e m0 m1 m2
  show ?thesis by simp
qed

text \<open>
  The claim as stated fails: on the text below the first pattern has a match, and the day
  \<open>day2\<close> of the output comes from the second pattern.
\<close>

theorem fallback_later_variant_contributes:
  "re_findall2 True (day_patterns ! 0) ''Day 1: breakfast: x day2: lunch: y''
     = [(''1'', ''breakfast: x day2: lunch: y'')]
   \<and> re_findall2 True (day_patterns ! 1) ''Day 1: breakfast: x day2: lunch: y''
     = [(''2'', ''lunch: y'')]
   \<and> fallback ''Day 1: breakfast: x day2: lunch: y''
     = Inr [(''day1'', [(''breakfast'', JStr ''x day2:''), (''morning_snack'', not_specified),
                        (''lunch'', JStr ''y''), (''evening_snack'', not_specified),
                        (''dinner'', not_specified)]),
            (''day2'', [(''breakfast'', not_specified), (''morning_snack'', not_specified),
                        (''lunch'', JStr ''y''), (''evening_snack'', not_specified),
                        (''dinner'', not_specified)])]"
  by code_simp

section \<open>Properties of the region extraction\<close>

lemma split_from_first:
  "sep \<noteq> [] \<Longrightarrow>
     split_from sep cur s
       = (rev cur @ text_before sep s)
         # (if contains sep s then split_from sep [] (text_after sep s) else [])"
proof (induction s arbitrary: cur)
  case Nil
  then show ?case by simp
next
  case (Cons c cs)
  show ?case
  proof (cases "startswith (c # cs) sep")
    case True
    from Cons.prems have "drop (length sep) (c # cs) = drop (length sep - 1) cs"
      by (cases sep) simp_all
    with True Cons.prems show ?thesis by simp
  next
    case False
    with Cons.IH [OF Cons.prems, of "c # cur"] Cons.prems show ?thesis by simp
  qed
qed

lemma split_sep_second:
  assumes "sep \<noteq> []" "contains sep s"
  shows "1 < length (split_sep s sep) \<and> split_sep s sep ! 1 = text_before sep (text_after sep s)"
proof -
  have "split_sep s sep = text_before sep s # split_from sep [] (text_after sep s)"
    using assms by (simp add: split_sep_def split_from_first [OF assms(1), of "[]" s])
  also have "split_from sep [] (text_after sep s)
      = text_before sep (text_after sep s)
        # (if contains sep (text_after sep s)
           then split_from sep [] (text_after sep (text_after sep s)) else [])"
    using split_from_first [OF assms(1), of "[]" "text_after sep s"] by simp
  finally show ?thesis by simp
qed

lemma pick_words:
  "(if length ws > 0 then (if length ws > 1 then ws ! 0 @ '' '' @ ws ! 1 else ws ! 0) else r)
     = (case ws of [] \<Rightarrow> r | [w] \<Rightarrow> w | w # w2 # _ \<Rightarrow> w @ '' '' @ w2)"
  by (cases ws) (auto split: list.splits)

lemma region_loop_step:
  assumes "keyword \<noteq> []"
  shows "region_loop (keyword # rest) query region_name
     = (case words_after keyword (lower query) of
          [] \<Rightarrow> region_loop rest query region_name
        | [w] \<Rightarrow> w
        | w # w2 # _ \<Rightarrow> w @ '' '' @ w2)"
proof (cases "contains keyword (lower query)")
  case False
  then show ?thesis by (simp add: words_after_def)
next
  case True
  from split_sep_second [OF assms True]
  have l: "1 < length (split_sep (lower query) keyword)"
    and p: "split_sep (lower query) keyword ! 1
              = text_before keyword (text_after keyword (lower query))" by simp_all
  define ws where "ws = split_ws (strip (text_before keyword (text_after keyword (lower query))))"
  from True have w: "words_after keyword (lower query) = ws"
    by (simp add: words_after_def ws_def)
  from True l p have "region_loop (keyword # rest) query region_name
      = (if length ws > 0 then (if length ws > 1 then ws ! 0 @ '' '' @ ws ! 1 else ws ! 0)
         else region_loop rest query region_name)"
    by (simp add: Let_def ws_def)
  also have "\<dots> = (case ws of [] \<Rightarrow> region_loop rest query region_name
        | [w] \<Rightarrow> w | w # w2 # _ \<Rightarrow> w @ '' '' @ w2)"
    by (rule pick_words)
  finally show ?thesis unfolding w .
qed

lemma region_loop_skip:
  assumes "\<forall>k \<in> set before. k \<noteq> [] \<and> words_after k (lower query) = []"
  shows "region_loop (before @ ks) query region_name = region_loop ks query region_name"
  using assms
proof (induction before)
  case Nil
  then show ?case by simp
next
  case (Cons k before)
  then have "k \<noteq> []" and "words_after k (lower query) = []" by simp_all
  with region_loop_step [OF \<open>k \<noteq> []\<close>, of "before @ ks" query region_name] Cons
  show ?case by simp
qed

lemma region_keywords_nonempty: "\<forall>k \<in> set region_keywords. k \<noteq> []"
  by (simp add: region_keywords_def)

text \<open>
  Claim C6, as the code has it.  The region is \<open>unknown\<close> when no keyword of the list
  occurs in the case-folded query, and when no keyword that occurs is followed by a word.
  Otherwise the first keyword of the list whose segment (the text from the end of its
  first occurrence to the start of its next occurrence, or to the end of the query) has a
  word decides: the region is the first word of that segment, followed by a space and the
  second word when the segment has two.
\<close>

theorem extract_region_segment:
  "((\<forall>k \<in> set region_keywords. \<not> contains k (lower query)) \<longrightarrow> extract_region query = ''unknown'')
   \<and> ((\<forall>k \<in> set region_keywords. words_after k (lower query) = []) \<longrightarrow>
          extract_region query = ''unknown'')
   \<and> (\<forall>before k after w ws.
          region_keywords = before @ k # after
          \<and> (\<forall>k' \<in> set before. words_after k' (lower query) = [])
          \<and> words_after k (lower query) = w # ws \<longrightarrow>
          extract_region query = (case ws of [] \<Rightarrow> w | w2 # _ \<Rightarrow> w @ '' '' @ w2))"
proof (intro conjI impI allI)
  assume none: "\<forall>k \<in> set region_keywords. words_after k (lower query) = []"
  with region_keywords_nonempty
  have "\<forall>k \<in> set region_keywords. k \<noteq> [] \<and> words_after k (lower query) = []" by simp
  from region_loop_skip [OF this, of "[]" "''unknown''"]
  show "extract_region query = ''unknown''" by (simp add: extract_region_def)
next
  assume "\<forall>k \<in> set region_keywords. \<not> contains k (lower query)"
  then have none: "\<forall>k \<in> set region_keywords. words_after k (lower query) = []"
    by (simp add: words_after_def)
  with region_keywords_nonempty
  have "\<forall>k \<in> set region_keywords. k \<noteq> [] \<and> words_after k (lower query) = []" by simp
  from region_loop_skip [OF this, of "[]" "''unknown''"]
  show "extract_region query = ''unknown''" by (simp add: extract_region_def)
next
  fix before k after w ws
  assume a: "region_keywords = before @ k # after
          \<and> (\<forall>k' \<in> set before. words_after k' (lower query) = [])
          \<and> words_after k (lower query) = w # ws"
  then have split: "region_keywords = before @ k # after"
    and skip: "\<forall>k' \<in> set before. words_after k' (lower query) = []"
    and hit: "words_after k (lower query) = w # ws" by simp_all
  from region_keywords_nonempty have "\<forall>x \<in> set (before @ k # after). x \<noteq> []"
    unfolding split .
  then have ne: "\<forall>k' \<in> set before. k' \<noteq> []" and k: "k \<noteq> []"
    by auto
  from ne skip have "\<forall>k' \<in> set before. k' \<noteq> [] \<and> words_after k' (lower query) = []" by simp
  from region_loop_skip [OF this, of "k # after" "''unknown''"] split
  have "extract_region query = region_loop (k # after) query ''unknown''"
    by (simp add: extract_region_def)
  also from region_loop_step [OF k, of after query "''unknown''"] hit
  have "\<dots> = (case ws of [] \<Rightarrow> w | w2 # _ \<Rightarrow> w @ '' '' @ w2)"
    by (cases ws) simp_all
  finally show "extract_region query = (case ws of [] \<Rightarrow> w | w2 # _ \<Rightarrow> w @ '' '' @ w2)" .
qed

theorem extract_region_segment_witness:
  "extract_region ''I am 28 weeks pregnant from Kerala'' = ''kerala''
   \<and> words_after ''from'' (lower ''I am 28 weeks pregnant from Kerala'') = [''kerala'']
   \<and> extract_region ''I am from Kerala state'' = ''kerala state''
   \<and> words_after ''state'' (lower ''I am from Kerala state'') = []
   \<and> extract_region ''I am 28 weeks pregnant and live in Bihar'' = ''unknown''"
proof -
  have e: "extract_region ''I am 28 weeks pregnant from Kerala'' = ''kerala''
   \<and> words_after ''from'' (lower ''I am 28 weeks pregnant from Kerala'') = [''kerala'']
   \<and> extract_region ''I am from Kerala state'' = ''kerala state''
   \<and> words_after ''state'' (lower ''I am from Kerala state'') = []
   \<and> extract_region ''I am 28 weeks pregnant and live in Bihar'' = ''unknown''"
    by code_simp
  from extract_region_segment [of "''I am 28 weeks pregnant from Kerala''"] e
  show ?thesis by simp
qed

text \<open>
  The claim as stated fails: the segment ends where the keyword occurs again, also inside
  a word.  In the query below only the keyword \<open>city\<close> occurs; the words after it are
  \<open>electricity colony\<close>, and the region extracted is \<open>electri\<close>.
\<close>

theorem extract_region_cuts_at_next_occurrence:
  "extract_region ''My city Electricity Colony'' = ''electri''
   \<and> spec_region ''My city Electricity Colony'' = ''electricity colony''
   \<and> filter (\<lambda>k. contains k (lower ''My city Electricity Colony'')) region_keywords = [''city'']"
  by code_simp

end
